theory Spec2Isabelle
  imports Complex_Main "HOL-Library.AList"
begin

section \<open>The coffee/tea bot of \<^verbatim>\<open>src/app.js\<close>\<close>

text \<open>
  The bot keeps three in-memory objects (\<^verbatim>\<open>userChoices\<close>, \<^verbatim>\<open>userMessageRefs\<close>,
  \<^verbatim>\<open>monthlySettled\<close>), a spreadsheet ledger (range \<^verbatim>\<open>A:E\<close>) and talks to the chat
  platform. The embedding passes all of it as one explicit state. What the JavaScript
  runtime and the two remote services compute (number and date parsing, the answers of the
  chat platform) is not code of the repository: it is taken as a parameter, the record
  \<open>env\<close>, so that every theorem holds for any such behaviour.

  Every call to the spreadsheet service and to the chat platform may be rejected: the
  answers are sums or optional errors, and a function that can be left by an exception
  after it changed the state returns the state it leaves together with the error.
  JavaScript objects are maps from property names;
  property names inherited from \<^verbatim>\<open>Object.prototype\<close> are not modelled (user identifiers
  of the chat platform never collide with them).
\<close>

subsection \<open>Ledger rows\<close>

type_synonym row = "string list"

text \<open>\<^verbatim>\<open>row[i]\<close>: \<open>None\<close> is JavaScript's \<^verbatim>\<open>undefined\<close> (the service omits trailing
  empty cells, so rows may be short).\<close>

definition cell :: "row \<Rightarrow> nat \<Rightarrow> string option" where
  "cell r i = (if i < length r then Some (r ! i) else None)"

text \<open>A value used as a property name: \<^verbatim>\<open>undefined\<close> becomes the name "undefined".\<close>

definition propertyKey :: "string option \<Rightarrow> string" where
  "propertyKey c = (case c of None \<Rightarrow> ''undefined'' | Some s \<Rightarrow> s)"

text \<open>A \<^verbatim>\<open>Date\<close>, as far as the program reads it: local year, local month index
  (0 to 11) and the ISO-8601 text.\<close>

record jsdate =
  getFullYear :: int
  getMonth :: nat
  toISOString :: string

datatype error = TypeError | ApiError string | SheetNotFound string

text \<open>The two ranges the program reads: \<^verbatim>\<open>A:E\<close> and \<^verbatim>\<open>A1:E1\<close>.\<close>

datatype range = ColumnsAE | HeaderCells

record user_info =
  display_name :: string
  real_name :: string
  user_name :: string

record member =
  is_bot :: bool
  deleted :: bool
  member_id :: "string option"

text \<open>The rendering of the control message (\<^verbatim>\<open>buildControlBlocks\<close>): the parts that
  depend on the state. The four buttons are static.\<close>

record blocks =
  tallyCoffee :: nat
  tallyTea :: nat
  amountDue :: string
  settledChecked :: bool

record 'n env =
  coffeePrice :: 'n
  teaPrice :: 'n
  parseFloat :: "string \<Rightarrow> 'n option"
  newDate :: "string \<Rightarrow> jsdate option"
  toFixed2 :: "'n \<Rightarrow> string"
  sheetNumber :: "'n \<Rightarrow> string"
  usersInfo :: "string \<Rightarrow> user_info option"
  conversationsOpen :: "string \<Rightarrow> error + string"
  chatPostMessage :: "string \<Rightarrow> blocks \<Rightarrow> error + string option"
  chatUpdate :: "string \<Rightarrow> string \<Rightarrow> blocks \<Rightarrow> error option"
  usersList :: "error + member list"
  sheetTitle :: string
  valuesGet :: "range \<Rightarrow> string list list \<Rightarrow> error option"
  valuesUpdate :: "string list list \<Rightarrow> error option"
  valuesAppend :: "string list list \<Rightarrow> string list \<Rightarrow> error option"
  spreadsheetsGet :: "error + (string \<times> int) list"
  batchUpdate :: "string list list \<Rightarrow> int \<Rightarrow> nat \<Rightarrow> error option"

text \<open>
  \<^item> \<open>parseFloat\<close>: \<open>None\<close> is \<^verbatim>\<open>NaN\<close>; \<open>newDate\<close>: \<open>None\<close> is an invalid date;
  \<^item> \<open>sheetNumber\<close>: the text the sheet gives back for a number written \<^verbatim>\<open>RAW\<close>;
  \<^item> \<open>usersInfo\<close>: \<open>None\<close> when \<^verbatim>\<open>users.info\<close> rejects;
  \<^item> \<open>chatPostMessage\<close> answers the \<^verbatim>\<open>ts\<close> of the response, \<open>chatUpdate\<close> an error or
    nothing;
  \<^item> \<open>valuesGet\<close>, \<open>valuesUpdate\<close>, \<open>valuesAppend\<close> and \<open>batchUpdate\<close> say whether the
    request is rejected, given the rows the sheet holds (and the row to append, the sheet
    identifier and the index of the row to delete);
  \<^item> \<open>spreadsheetsGet\<close> answers the titles and identifiers of the sheets of the
    spreadsheet, in order.
  Amounts have a type \<open>'n\<close> with \<open>0\<close> and \<open>+\<close> and no law assumed: JavaScript's
  floating-point sum, taken left to right, is one instance.
\<close>

subsection \<open>Month key\<close>

fun digits :: "nat \<Rightarrow> string" where
  "digits n = (if n < 10 then [''0123456789'' ! n]
               else digits (n div 10) @ [''0123456789'' ! (n mod 10)])"

declare digits.simps [simp del]

definition showInt :: "int \<Rightarrow> string" where
  "showInt i = (if i < 0 then CHR ''-'' # digits (nat (- i)) else digits (nat i))"

definition padStart2 :: "string \<Rightarrow> string" where
  "padStart2 s = (if length s < 2 then replicate (2 - length s) CHR ''0'' @ s else s)"

definition getCurrentMonthKey :: "jsdate \<Rightarrow> string" where
  "getCurrentMonthKey date =
     (let y = getFullYear date; m = padStart2 (digits (getMonth date + 1))
      in showInt y @ ''-'' @ m)"

subsection \<open>Summary engine: \<^verbatim>\<open>getUserMonthlySummary\<close>\<close>

record 'n summary =
  coffee :: nat
  tea :: nat
  amount :: 'n

text \<open>\<^verbatim>\<open>parseFloat(row[4] || '0') || 0\<close>\<close>

definition priceText :: "string option \<Rightarrow> string" where
  "priceText c = (case c of None \<Rightarrow> ''0'' | Some s \<Rightarrow> if s = [] then ''0'' else s)"

definition parsePrice :: "('n::zero) env \<Rightarrow> string option \<Rightarrow> 'n" where
  "parsePrice env c = (case parseFloat env (priceText c) of None \<Rightarrow> 0 | Some v \<Rightarrow> v)"

text \<open>\<^verbatim>\<open>new Date(row[2])\<close>: an absent cell gives an invalid date.\<close>

definition parseCellDate :: "'n env \<Rightarrow> string option \<Rightarrow> jsdate option" where
  "parseCellDate env c = (case c of None \<Rightarrow> None | Some s \<Rightarrow> newDate env s)"

text \<open>The body of the \<^verbatim>\<open>for\<close> loop, over the rows from index 1 on.\<close>

fun summaryLoop ::
  "('n::{zero,plus}) env \<Rightarrow> string \<Rightarrow> int \<Rightarrow> nat \<Rightarrow> row list \<Rightarrow> 'n summary \<Rightarrow> 'n summary" where
  "summaryLoop env userId targetYear targetMonth [] acc = acc"
| "summaryLoop env userId targetYear targetMonth (row # rest) acc =
     (if cell row 0 \<noteq> Some userId then summaryLoop env userId targetYear targetMonth rest acc
      else
        (let choice = cell row 3; price = parsePrice env (cell row 4) in
         case parseCellDate env (cell row 2) of
           None \<Rightarrow> summaryLoop env userId targetYear targetMonth rest acc
         | Some d \<Rightarrow>
             if getFullYear d = targetYear \<and> getMonth d = targetMonth then
               summaryLoop env userId targetYear targetMonth rest
                 \<lparr>coffee = (if choice = Some ''coffee'' then coffee acc + 1 else coffee acc),
                  tea = (if choice = Some ''tea'' then tea acc + 1 else tea acc),
                  amount = amount acc + price\<rparr>
             else summaryLoop env userId targetYear targetMonth rest acc))"

definition getUserMonthlySummary ::
  "('n::{zero,plus}) env \<Rightarrow> row list \<Rightarrow> string \<Rightarrow> jsdate \<Rightarrow> 'n summary" where
  "getUserMonthlySummary env rows userId date =
     summaryLoop env userId (getFullYear date) (getMonth date) (drop 1 rows)
       \<lparr>coffee = 0, tea = 0, amount = 0\<rparr>"

text \<open>The summary as the specification words it: the rows that count, then the counts
  and the sum over them.\<close>

definition countedRow :: "'n env \<Rightarrow> string \<Rightarrow> jsdate \<Rightarrow> row \<Rightarrow> bool" where
  "countedRow env userId date r =
     (cell r 0 = Some userId \<and>
      (case parseCellDate env (cell r 2) of
         None \<Rightarrow> False
       | Some d \<Rightarrow> getFullYear d = getFullYear date \<and> getMonth d = getMonth date))"

definition countedRows :: "'n env \<Rightarrow> row list \<Rightarrow> string \<Rightarrow> jsdate \<Rightarrow> row list" where
  "countedRows env rows userId date = filter (countedRow env userId date) (drop 1 rows)"

definition kindCount :: "string \<Rightarrow> row list \<Rightarrow> nat" where
  "kindCount kind rs = length (filter (\<lambda>r. cell r 3 = Some kind) rs)"

definition priceSum :: "('n::{zero,plus}) env \<Rightarrow> row list \<Rightarrow> 'n" where
  "priceSum env rs = foldl (+) 0 (map (\<lambda>r. parsePrice env (cell r 4)) rs)"

subsection \<open>In-memory state and ledger\<close>

text \<open>A JavaScript number held in a counter object: an integer or \<^verbatim>\<open>NaN\<close>.\<close>

datatype jsnum = Num int | NaN

type_synonym counters = "string \<rightharpoonup> jsnum"

record msgref =
  channelId :: string
  ts :: "string option"
  monthKey :: string

datatype chat_event =
    PostMessage string blocks
  | ChatUpdate string string blocks

datatype log_entry =
    FailedDM string error
  | BroadcastFailed error

text \<open>\<open>sheet\<close> is what \<^verbatim>\<open>values.get\<close> answers for \<^verbatim>\<open>A:E\<close>; \<open>chat\<close> the messages
  the platform accepted, oldest first; \<open>console\<close> the lines of \<^verbatim>\<open>console.error\<close>.\<close>

record state =
  userChoices :: "string \<rightharpoonup> counters"
  userMessageRefs :: "string \<rightharpoonup> msgref"
  monthlySettled :: "string \<rightharpoonup> (string \<rightharpoonup> bool)"
  sheetIdCache :: "int option"
  sheet :: "row list"
  chat :: "chat_event list"
  console :: "log_entry list"

definition initial :: state where
  "initial = \<lparr>userChoices = Map.empty, userMessageRefs = Map.empty,
     monthlySettled = Map.empty, sheetIdCache = None, sheet = [], chat = [], console = []\<rparr>"

text \<open>The state a call of \<^verbatim>\<open>sendOrUpdateControlMessage\<close> leaves: when it throws, it does
  so before it changed anything.\<close>

definition stateAfter :: "error + state \<Rightarrow> state \<Rightarrow> state" where
  "stateAfter r st = (case r of Inl e \<Rightarrow> st | Inr st' \<Rightarrow> st')"

text \<open>\<^verbatim>\<open>{ coffee: 0, tea: 0 }\<close>, \<^verbatim>\<open>obj[k]++\<close> and \<^verbatim>\<open>Math.max(0, obj[k] - 1)\<close>; a
  missing property reads \<^verbatim>\<open>undefined\<close>, which both turn into \<^verbatim>\<open>NaN\<close>.\<close>

definition newCounters :: counters where
  "newCounters = [''coffee'' \<mapsto> Num 0, ''tea'' \<mapsto> Num 0]"

fun increment :: "jsnum option \<Rightarrow> jsnum" where
  "increment (Some (Num n)) = Num (n + 1)"
| "increment (Some NaN) = NaN"
| "increment None = NaN"

fun decrementFloor :: "jsnum option \<Rightarrow> jsnum" where
  "decrementFloor (Some (Num n)) = Num (max 0 (n - 1))"
| "decrementFloor (Some NaN) = NaN"
| "decrementFloor None = NaN"

text \<open>\<^verbatim>\<open>getUserDisplayName\<close>: the first non-empty of display name, real name and user
  name, the identifier when all are empty or the lookup fails.\<close>

definition getUserDisplayName :: "'n env \<Rightarrow> string \<Rightarrow> string" where
  "getUserDisplayName env userId =
     (case usersInfo env userId of
        None \<Rightarrow> userId
      | Some info \<Rightarrow>
          if display_name info \<noteq> [] then display_name info
          else if real_name info \<noteq> [] then real_name info
          else if user_name info \<noteq> [] then user_name info
          else userId)"

text \<open>\<^verbatim>\<open>ensureHeaderRow\<close>: the header is written over row 0 when that row is missing or
  all its cells are empty or blank. \<open>isBlank\<close> is \<^verbatim>\<open>`${c}`.trim() === ''\<close> on ASCII text.
  \<open>headerEnsured\<close> is the sheet after a call in which nothing is rejected;
  \<open>ensureHeaderRow\<close> is the call: the read of \<^verbatim>\<open>A1:E1\<close>, then the write of the header
  when the first row is empty.\<close>

definition header :: row where
  "header = [''UserID'', ''UserName'', ''Date'', ''Choice'', ''Price'']"

definition isWhitespace :: "char \<Rightarrow> bool" where
  "isWhitespace c = (c = CHR '' '' \<or> ((9::nat) \<le> of_char c \<and> (of_char c :: nat) \<le> 13))"

definition isBlank :: "string \<Rightarrow> bool" where
  "isBlank c = list_all isWhitespace c"

definition firstRowEmpty :: "row list \<Rightarrow> bool" where
  "firstRowEmpty rows =
     (let firstRow = (case rows of [] \<Rightarrow> [] | r # _ \<Rightarrow> r)
      in length firstRow = 0 \<or> list_all (\<lambda>c. c = [] \<or> isBlank c) firstRow)"

definition headerEnsured :: "row list \<Rightarrow> row list" where
  "headerEnsured rows = (if firstRowEmpty rows then header # drop 1 rows else rows)"

definition ensureHeaderRow :: "'n env \<Rightarrow> row list \<Rightarrow> error + row list" where
  "ensureHeaderRow env rows =
     (case valuesGet env HeaderCells rows of
        Some e \<Rightarrow> Inl e
      | None \<Rightarrow>
          if firstRowEmpty rows then
            (case valuesUpdate env rows of
               Some e \<Rightarrow> Inl e
             | None \<Rightarrow> Inr (header # drop 1 rows))
          else Inr rows)"

text \<open>\<^verbatim>\<open>getSheetId\<close>: the cached identifier when it is truthy (an identifier 0 is not),
  else the identifier of the first sheet with the configured title, which is cached; an
  error when the lookup is rejected or no sheet has the title.\<close>

definition getSheetId :: "'n env \<Rightarrow> state \<Rightarrow> error + (int \<times> state)" where
  "getSheetId env st =
     (let fetch =
        (case spreadsheetsGet env of
           Inl e \<Rightarrow> Inl e
         | Inr sheets \<Rightarrow>
             (case map_of sheets (sheetTitle env) of
                None \<Rightarrow> Inl (SheetNotFound (sheetTitle env))
              | Some i \<Rightarrow> Inr (i, st\<lparr>sheetIdCache := Some i\<rparr>)))
      in case sheetIdCache st of
           None \<Rightarrow> fetch
         | Some i \<Rightarrow> if i \<noteq> 0 then Inr (i, st) else fetch)"

text \<open>\<^verbatim>\<open>values.append\<close> and \<^verbatim>\<open>deleteDimension\<close> of one row.\<close>

definition appendRow :: "row list \<Rightarrow> row \<Rightarrow> row list" where
  "appendRow rows r = rows @ [r]"

definition deleteRow :: "row list \<Rightarrow> nat \<Rightarrow> row list" where
  "deleteRow rows i = take i rows @ drop (Suc i) rows"

subsection \<open>\<^verbatim>\<open>logChoice\<close> and \<^verbatim>\<open>revokeLastChoice\<close>\<close>

text \<open>\<^verbatim>\<open>logChoice\<close>: the counter is incremented first (line 280); a rejected call of
  \<^verbatim>\<open>ensureHeaderRow\<close> or of \<^verbatim>\<open>values.append\<close> leaves it incremented with no row
  appended.\<close>

definition logChoice ::
  "'n env \<Rightarrow> jsdate \<Rightarrow> string \<Rightarrow> string \<Rightarrow> state \<Rightarrow> state \<times> error option" where
  "logChoice env now userId choice st =
     (let obj = (case userChoices st userId of None \<Rightarrow> newCounters | Some c \<Rightarrow> c);
          obj' = obj(choice \<mapsto> increment (obj choice));
          st1 = st\<lparr>userChoices := (userChoices st)(userId \<mapsto> obj')\<rparr>;
          price = (if choice = ''coffee'' then coffeePrice env else teaPrice env);
          userName = getUserDisplayName env userId;
          newRow = [userId, userName, toISOString now, choice, sheetNumber env price]
      in case ensureHeaderRow env (sheet st) of
           Inl e \<Rightarrow> (st1, Some e)
         | Inr rows \<Rightarrow>
             (case valuesAppend env rows newRow of
                Some e \<Rightarrow> (st1\<lparr>sheet := rows\<rparr>, Some e)
              | None \<Rightarrow> (st1\<lparr>sheet := appendRow rows newRow\<rparr>, None)))"

text \<open>The backwards scan \<^verbatim>\<open>for (let i = rows.length - 1; i >= 1; i--)\<close>; the result
  is \<^verbatim>\<open>lastIndex\<close>, \<open>-1\<close> when nothing matched. On an empty sheet the scan starts
  below 1 and gives \<open>-1\<close>.\<close>

fun scanBack :: "row list \<Rightarrow> string \<Rightarrow> nat \<Rightarrow> int" where
  "scanBack rows userId 0 = - 1"
| "scanBack rows userId (Suc i) =
     (if cell (rows ! Suc i) 0 = Some userId then int (Suc i) else scanBack rows userId i)"

definition lastIndexFor :: "row list \<Rightarrow> string \<Rightarrow> int" where
  "lastIndexFor rows userId = scanBack rows userId (length rows - 1)"

text \<open>\<^verbatim>\<open>revokeLastChoice\<close>: a rejected read changes nothing;
  \<^verbatim>\<open>userChoices[userId][lastChoice]\<close> throws a \<^verbatim>\<open>TypeError\<close> when the user has no
  counter object, before any change; the counter is written (line 308) before
  \<^verbatim>\<open>getSheetId\<close> and the deletion are awaited, so a failure of either leaves the counter
  written and the row in place.\<close>

definition revokeLastChoice :: "'n env \<Rightarrow> string \<Rightarrow> state \<Rightarrow> state \<times> error option" where
  "revokeLastChoice env userId st =
     (case valuesGet env ColumnsAE (sheet st) of
        Some e \<Rightarrow> (st, Some e)
      | None \<Rightarrow>
          (let rows = sheet st; lastIndex = lastIndexFor rows userId in
           if lastIndex > 0 then
             (let lastChoice = propertyKey (cell (rows ! nat lastIndex) 3) in
              case userChoices st userId of
                None \<Rightarrow> (st, Some TypeError)
              | Some obj \<Rightarrow>
                  (let st1 = st\<lparr>userChoices :=
                         (userChoices st)(userId \<mapsto>
                            obj(lastChoice \<mapsto> decrementFloor (obj lastChoice)))\<rparr>
                   in case getSheetId env st1 of
                        Inl e \<Rightarrow> (st1, Some e)
                      | Inr (sheetId, st2) \<Rightarrow>
                          (case batchUpdate env rows sheetId (nat lastIndex) of
                             Some e \<Rightarrow> (st2, Some e)
                           | None \<Rightarrow> (st2\<lparr>sheet := deleteRow rows (nat lastIndex)\<rparr>, None))))
           else (st, None)))"

text \<open>A serialized sequence of calls for one user; each recording carries the clock
  reading of its call. A call that throws leaves its state to the next call.\<close>

datatype call = RecordChoice jsdate string | UndoLastChoice

fun perform :: "'n env \<Rightarrow> string \<Rightarrow> state \<Rightarrow> call \<Rightarrow> state \<times> error option" where
  "perform env userId st (RecordChoice now kind) = logChoice env now userId kind st"
| "perform env userId st UndoLastChoice = revokeLastChoice env userId st"

definition performAll :: "'n env \<Rightarrow> string \<Rightarrow> call list \<Rightarrow> state \<Rightarrow> state" where
  "performAll env userId calls st = foldl (\<lambda>s c. fst (perform env userId s c)) st calls"

text \<open>Every call of the sequence returned normally.\<close>

fun allCompleted :: "'n env \<Rightarrow> string \<Rightarrow> call list \<Rightarrow> state \<Rightarrow> bool" where
  "allCompleted env userId [] st = True"
| "allCompleted env userId (c # cs) st =
     (snd (perform env userId st c) = None
      \<and> allCompleted env userId cs (fst (perform env userId st c)))"

text \<open>The ledger rows of one kind for one user, the header apart.\<close>

definition ledgerCount :: "row list \<Rightarrow> string \<Rightarrow> string \<Rightarrow> nat" where
  "ledgerCount rows userId kind =
     length (filter (\<lambda>r. cell r 0 = Some userId \<and> cell r 3 = Some kind) (drop 1 rows))"

text \<open>The counter of a kind agrees with the ledger; a user with no counter object yet
  has no row.\<close>

definition counterMatches :: "state \<Rightarrow> string \<Rightarrow> string \<Rightarrow> bool" where
  "counterMatches st userId kind =
     (case userChoices st userId of
        None \<Rightarrow> ledgerCount (sheet st) userId kind = 0
      | Some obj \<Rightarrow> obj kind = Some (Num (int (ledgerCount (sheet st) userId kind))))"

subsection \<open>Control message: \<^verbatim>\<open>sendOrUpdateControlMessage\<close>\<close>

definition buildControlBlocks :: "('n::{zero,plus}) env \<Rightarrow> jsdate \<Rightarrow> string \<Rightarrow> state \<Rightarrow> blocks" where
  "buildControlBlocks env now userId st =
     (let s = getUserMonthlySummary env (sheet st) userId now;
          mk = getCurrentMonthKey now;
          isSettled = (case monthlySettled st mk of
                         None \<Rightarrow> False
                       | Some m \<Rightarrow> (case m userId of None \<Rightarrow> False | Some b \<Rightarrow> b))
      in \<lparr>tallyCoffee = coffee s, tallyTea = tea s, amountDue = toFixed2 env (amount s),
          settledChecked = isSettled\<rparr>)"

definition openDmChannel :: "'n env \<Rightarrow> string \<Rightarrow> error + string" where
  "openDmChannel env userId = conversationsOpen env userId"

text \<open>Truthiness of a string that may be \<^verbatim>\<open>undefined\<close>.\<close>

definition truthy :: "string option \<Rightarrow> bool" where
  "truthy v = (case v of None \<Rightarrow> False | Some s \<Rightarrow> s \<noteq> [])"

definition tsText :: "msgref \<Rightarrow> string" where
  "tsText r = (case ts r of None \<Rightarrow> [] | Some t \<Rightarrow> t)"

text \<open>\<^verbatim>\<open>record && record.ts && record.monthKey === monthKey\<close>: a reference to a
  message of the month \<open>mk\<close> is recorded.\<close>

definition liveRecord :: "msgref option \<Rightarrow> string \<Rightarrow> bool" where
  "liveRecord ref mk = (case ref of None \<Rightarrow> False | Some r \<Rightarrow> truthy (ts r) \<and> monthKey r = mk)"

text \<open>\<^verbatim>\<open>userMessageRefs[userId]?.channelId || (await openDmChannel(userId))\<close>\<close>

definition channelFor :: "'n env \<Rightarrow> string \<Rightarrow> msgref option \<Rightarrow> error + string" where
  "channelFor env userId ref =
     (case ref of
        None \<Rightarrow> openDmChannel env userId
      | Some r \<Rightarrow> if channelId r \<noteq> [] then Inr (channelId r) else openDmChannel env userId)"

text \<open>The two branches of the \<^verbatim>\<open>if\<close>: \<^verbatim>\<open>chat.update\<close> of the recorded message, or
  \<^verbatim>\<open>chat.postMessage\<close> followed by the recording of the new reference.\<close>

definition updateInPlace :: "'n env \<Rightarrow> string \<Rightarrow> msgref \<Rightarrow> blocks \<Rightarrow> state \<Rightarrow> error + state" where
  "updateInPlace env channel r blks st =
     (case chatUpdate env channel (tsText r) blks of
        Some e \<Rightarrow> Inl e
      | None \<Rightarrow> Inr (st\<lparr>chat := chat st @ [ChatUpdate channel (tsText r) blks]\<rparr>))"

definition postNew :: "'n env \<Rightarrow> string \<Rightarrow> string \<Rightarrow> string \<Rightarrow> blocks \<Rightarrow> state \<Rightarrow> error + state" where
  "postNew env userId channel mk blks st =
     (case chatPostMessage env channel blks of
        Inl e \<Rightarrow> Inl e
      | Inr respTs \<Rightarrow>
          Inr (st\<lparr>chat := chat st @ [PostMessage channel blks],
                  userMessageRefs := (userMessageRefs st)(userId \<mapsto>
                    \<lparr>channelId = channel, ts = respTs, monthKey = mk\<rparr>)\<rparr>))"

text \<open>\<^verbatim>\<open>buildControlBlocks\<close> comes first and reads the sheet (the \<^verbatim>\<open>values.get\<close> of
  \<^verbatim>\<open>getUserMonthlySummary\<close>): when that read is rejected, nothing else is called.\<close>

definition sendOrUpdateControlMessage ::
  "('n::{zero,plus}) env \<Rightarrow> jsdate \<Rightarrow> string \<Rightarrow> state \<Rightarrow> error + state" where
  "sendOrUpdateControlMessage env now userId st =
     (let mk = getCurrentMonthKey now;
          blks = buildControlBlocks env now userId st;
          ref = userMessageRefs st userId
      in case valuesGet env ColumnsAE (sheet st) of
           Some e \<Rightarrow> Inl e
         | None \<Rightarrow>
             (case channelFor env userId ref of
                Inl e \<Rightarrow> Inl e
              | Inr channel \<Rightarrow>
                  (case ref of
                     None \<Rightarrow> postNew env userId channel mk blks st
                   | Some r \<Rightarrow>
                       if truthy (ts r) \<and> monthKey r = mk
                       then updateInPlace env channel r blks st
                       else postNew env userId channel mk blks st)))"


text \<open>A recorded reference carries the timestamp of its message. The only write to
  \<^verbatim>\<open>userMessageRefs\<close> (line 185) stores the \<^verbatim>\<open>ts\<close> the platform answered to the post.\<close>

definition refHasTs :: "msgref option \<Rightarrow> bool" where
  "refHasTs ref = (case ref of None \<Rightarrow> True | Some r \<Rightarrow> truthy (ts r))"

text \<open>The platform answers every accepted post with a timestamp.\<close>

definition postsAnswerTs :: "'n env \<Rightarrow> bool" where
  "postsAnswerTs env = (\<forall>c b. case chatPostMessage env c b of Inl e \<Rightarrow> True | Inr t \<Rightarrow> truthy t)"

subsection \<open>Settlement flags: the \<^verbatim>\<open>settled_toggle\<close> action\<close>

text \<open>Lines 264 to 266: create the month's object when absent, then store the flag.\<close>

definition setSettled ::
  "string \<Rightarrow> string \<Rightarrow> bool \<Rightarrow> (string \<rightharpoonup> (string \<rightharpoonup> bool)) \<Rightarrow> (string \<rightharpoonup> (string \<rightharpoonup> bool))" where
  "setSettled userId mk flag settled =
     (let inner = (case settled mk of None \<Rightarrow> Map.empty | Some m \<Rightarrow> m)
      in settled(mk \<mapsto> inner(userId \<mapsto> flag)))"

text \<open>The flag stored for a month key and a user, \<open>None\<close> when nothing is stored.\<close>

definition settledFlag :: "(string \<rightharpoonup> (string \<rightharpoonup> bool)) \<Rightarrow> string \<Rightarrow> string \<Rightarrow> bool option" where
  "settledFlag settled mk userId = (case settled mk of None \<Rightarrow> None | Some m \<Rightarrow> m userId)"

text \<open>The handler: \<open>selected_options\<close> are the values of the ticked options, \<open>None\<close>
  when the payload has none. The result is the state left and the error thrown, if any.\<close>

definition settled_toggle ::
  "('n::{zero,plus}) env \<Rightarrow> jsdate \<Rightarrow> string \<Rightarrow> string list option \<Rightarrow> state \<Rightarrow> state \<times> error option" where
  "settled_toggle env now userId selected_options st =
     (let mk = getCurrentMonthKey now;
          selected = (case selected_options of None \<Rightarrow> False | Some vs \<Rightarrow> ''settled'' \<in> set vs);
          st1 = st\<lparr>monthlySettled := setSettled userId mk selected (monthlySettled st)\<rparr>
      in case sendOrUpdateControlMessage env now userId st1 of
           Inl e \<Rightarrow> (st1, Some e)
         | Inr st2 \<Rightarrow> (st2, None))"

subsection \<open>The \<^verbatim>\<open>/monthly_tally\<close> command: its summary object\<close>

text \<open>\<^verbatim>\<open>summary[userId][choice]++\<close> on \<^verbatim>\<open>{ coffee, tea, amount }\<close>: any other
  property name gets a \<^verbatim>\<open>NaN\<close> property that nothing reads.\<close>

definition bump :: "('n::{one,plus}) summary \<Rightarrow> string \<Rightarrow> 'n summary" where
  "bump t choice =
     (if choice = ''coffee'' then t\<lparr>coffee := coffee t + 1\<rparr>
      else if choice = ''tea'' then t\<lparr>tea := tea t + 1\<rparr>
      else if choice = ''amount'' then t\<lparr>amount := amount t + 1\<rparr>
      else t)"

text \<open>The summary object as an association list in insertion order, the order in which
  \<^verbatim>\<open>for ... in\<close> visits it.\<close>

fun tallyLoop ::
  "('n::{zero,one,plus}) env \<Rightarrow> row list \<Rightarrow> (string \<times> 'n summary) list \<Rightarrow> (string \<times> 'n summary) list" where
  "tallyLoop env [] summary = summary"
| "tallyLoop env (row # rest) summary =
     (let userId = propertyKey (cell row 0);
          choice = propertyKey (cell row 3);
          price = parsePrice env (cell row 4);
          entry = (case map_of summary userId of
                     None \<Rightarrow> \<lparr>coffee = 0, tea = 0, amount = 0\<rparr>
                   | Some e \<Rightarrow> e);
          entry1 = bump entry choice;
          entry2 = entry1\<lparr>amount := amount entry1 + price\<rparr>
      in tallyLoop env rest (AList.update userId entry2 summary))"

definition monthlyTally :: "('n::{zero,one,plus}) env \<Rightarrow> row list \<Rightarrow> (string \<times> 'n summary) list" where
  "monthlyTally env rows = tallyLoop env (drop 1 rows) []"

subsection \<open>Monthly broadcast\<close>

text \<open>\<^verbatim>\<open>!u.is_bot && !u.deleted && u.id && u.id.startsWith('U')\<close>\<close>

definition eligible :: "member \<Rightarrow> bool" where
  "eligible u =
     (\<not> is_bot u \<and> \<not> deleted u \<and>
      (case member_id u of None \<Rightarrow> False | Some i \<Rightarrow> i \<noteq> [] \<and> take 1 i = ''U''))"

definition idOf :: "member \<Rightarrow> string" where
  "idOf u = propertyKey (member_id u)"

fun broadcastLoop :: "('n::{zero,plus}) env \<Rightarrow> jsdate \<Rightarrow> member list \<Rightarrow> state \<Rightarrow> state" where
  "broadcastLoop env now [] st = st"
| "broadcastLoop env now (u # us) st =
     (case sendOrUpdateControlMessage env now (idOf u) st of
        Inl e \<Rightarrow> broadcastLoop env now us (st\<lparr>console := console st @ [FailedDM (idOf u) e]\<rparr>)
      | Inr st' \<Rightarrow> broadcastLoop env now us st')"

definition broadcastForCurrentMonth :: "('n::{zero,plus}) env \<Rightarrow> jsdate \<Rightarrow> state \<Rightarrow> state" where
  "broadcastForCurrentMonth env now st =
     (case usersList env of
        Inl e \<Rightarrow> st\<lparr>console := console st @ [BroadcastFailed e]\<rparr>
      | Inr members \<Rightarrow> broadcastLoop env now (filter eligible members) st)"

subsection \<open>A test double of the runtime and the services\<close>

text \<open>Two clock readings and an environment that agrees with JavaScript and with the
  services on the values the examples below use: prices 2 and 1.5 (exact as doubles, as
  are their sums), a chat platform that rejects every post to the channel of \<open>U2\<close>, a
  directory of five members of which three are eligible, and a spreadsheet service that
  rejects nothing.\<close>

definition may2024 :: jsdate where
  "may2024 = \<lparr>getFullYear = 2024, getMonth = 4, toISOString = ''2024-05-15T10:00:00.000Z''\<rparr>"

definition april2024 :: jsdate where
  "april2024 = \<lparr>getFullYear = 2024, getMonth = 3, toISOString = ''2024-04-10T09:00:00.000Z''\<rparr>"

definition directory :: "member list" where
  "directory =
     [\<lparr>is_bot = False, deleted = False, member_id = Some ''U1''\<rparr>,
      \<lparr>is_bot = True, deleted = False, member_id = Some ''UBOT''\<rparr>,
      \<lparr>is_bot = False, deleted = False, member_id = Some ''U2''\<rparr>,
      \<lparr>is_bot = False, deleted = True, member_id = Some ''UGONE''\<rparr>,
      \<lparr>is_bot = False, deleted = False, member_id = Some ''U3''\<rparr>]"

definition demoEnv :: "rat env" where
  "demoEnv =
     \<lparr>coffeePrice = 2, teaPrice = 3 / 2,
      parseFloat = (\<lambda>s. if s = ''2'' then Some 2 else if s = ''1.5'' then Some (3 / 2)
                         else if s = ''0'' then Some 0 else None),
      newDate = (\<lambda>s. if s = ''2024-05-15T10:00:00.000Z'' then Some may2024
                      else if s = ''2024-04-10T09:00:00.000Z'' then Some april2024 else None),
      toFixed2 = (\<lambda>x. if x = 0 then ''0.00'' else if x = 2 then ''2.00''
                       else if x = 7 / 2 then ''3.50'' else ''other''),
      sheetNumber = (\<lambda>x. if x = 2 then ''2'' else if x = 3 / 2 then ''1.5'' else ''other''),
      usersInfo = (\<lambda>u. None),
      conversationsOpen = (\<lambda>u. Inr (CHR ''D'' # u)),
      chatPostMessage = (\<lambda>c b. if c = ''DU2'' then Inl (ApiError ''channel_not_found'')
                               else Inr (Some ''1715767200.000100'')),
      chatUpdate = (\<lambda>c t b. None),
      usersList = Inr directory,
      sheetTitle = ''Sheet1'',
      valuesGet = (\<lambda>r rows. None),
      valuesUpdate = (\<lambda>rows. None),
      valuesAppend = (\<lambda>rows r. None),
      spreadsheetsGet = Inr [(''Sheet1'', 0)],
      batchUpdate = (\<lambda>rows i k. None)\<rparr>"

text \<open>The same environment with a spreadsheet service that rejects every append.\<close>

definition appendDown :: "rat env" where
  "appendDown = demoEnv\<lparr>valuesAppend := (\<lambda>rows r. Some (ApiError ''unavailable''))\<rparr>"

text \<open>No request to the spreadsheet service is rejected and the configured sheet exists.\<close>

definition sheetsUp :: "'n env \<Rightarrow> bool" where
  "sheetsUp env =
     ((\<forall>r rows. valuesGet env r rows = None) \<and> (\<forall>rows. valuesUpdate env rows = None)
      \<and> (\<forall>rows r. valuesAppend env rows r = None) \<and> (\<forall>rows i k. batchUpdate env rows i k = None)
      \<and> (\<exists>sheets i. spreadsheetsGet env = Inr sheets \<and> map_of sheets (sheetTitle env) = Some i))"

text \<open>No row after the header carries the user's identifier.\<close>

definition noDataRow :: "row list \<Rightarrow> string \<Rightarrow> bool" where
  "noDataRow rows userId = list_all (\<lambda>r. cell r 0 \<noteq> Some userId) (drop 1 rows)"

text \<open>The text \<open>s\<close> parses to a date in the year and month of \<open>date\<close>.\<close>

definition inMonthOf :: "'n env \<Rightarrow> jsdate \<Rightarrow> string \<Rightarrow> bool" where
  "inMonthOf env date s =
     (case newDate env s of
        None \<Rightarrow> False
      | Some d \<Rightarrow> getFullYear d = getFullYear date \<and> getMonth d = getMonth date)"

text \<open>What one call of \<^verbatim>\<open>sendOrUpdateControlMessage\<close> for a user, made in state \<open>st\<close>,
  contributes to the console (inside the \<^verbatim>\<open>try\<close> of the broadcast) and to the chat.\<close>

fun failedUser :: "log_entry \<Rightarrow> string option" where
  "failedUser (FailedDM u e) = Some u"
| "failedUser (BroadcastFailed e) = None"

definition attemptFailure :: "('n::{zero,plus}) env \<Rightarrow> jsdate \<Rightarrow> state \<Rightarrow> string \<Rightarrow> log_entry list" where
  "attemptFailure env now st userId =
     (case sendOrUpdateControlMessage env now userId st of
        Inl e \<Rightarrow> [FailedDM userId e]
      | Inr st' \<Rightarrow> [])"

definition attemptEvents :: "('n::{zero,plus}) env \<Rightarrow> jsdate \<Rightarrow> state \<Rightarrow> string \<Rightarrow> chat_event list" where
  "attemptEvents env now st userId =
     (case sendOrUpdateControlMessage env now userId st of
        Inl e \<Rightarrow> []
      | Inr st' \<Rightarrow> drop (length (chat st)) (chat st'))"


text \<open>The value stored under a property name in the user's counter object.\<close>

definition counterOf :: "state \<Rightarrow> string \<Rightarrow> string \<Rightarrow> jsnum option" where
  "counterOf st userId k = (case userChoices st userId of None \<Rightarrow> None | Some obj \<Rightarrow> obj k)"

section \<open>Properties\<close>

lemma summaryLoop_filter:
  "summaryLoop env userId (getFullYear date) (getMonth date) rs acc =
     \<lparr>coffee = coffee acc + kindCount ''coffee'' (filter (countedRow env userId date) rs),
      tea = tea acc + kindCount ''tea'' (filter (countedRow env userId date) rs),
      amount = foldl (+) (amount acc)
         (map (\<lambda>r. parsePrice env (cell r 4)) (filter (countedRow env userId date) rs))\<rparr>"
proof (induction rs arbitrary: acc)
  case Nil
  then show ?case by (simp add: kindCount_def)
next
  case (Cons r rs)
  show ?case
  proof (cases "countedRow env userId date r")
    case True
    then obtain d where d: "cell r 0 = Some userId" "parseCellDate env (cell r 2) = Some d"
      "getFullYear d = getFullYear date" "getMonth d = getMonth date"
      by (auto simp: countedRow_def split: option.splits)
    show ?thesis
      using True d by (simp add: Cons.IH kindCount_def Let_def)
  next
    case False
    then show ?thesis
      by (auto simp: Cons.IH countedRow_def Let_def split: option.splits)
  qed
qed

text \<open>
  C2. For every list of ledger rows, user and reference date, the monthly summary counts
  exactly the rows after the header whose user identifier is the user's and whose date
  parses into the year and month of the reference date; every other row (another user, a
  date that does not parse) is skipped; the result is the number of counted rows of kind
  coffee, of kind tea, and the sum of their prices, a price that does not parse being 0.
\<close>

theorem monthly_summary_counts_rows:
  "getUserMonthlySummary env rows userId date =
     \<lparr>coffee = kindCount ''coffee'' (countedRows env rows userId date),
      tea = kindCount ''tea'' (countedRows env rows userId date),
      amount = priceSum env (countedRows env rows userId date)\<rparr>
   \<and> (\<forall>c. parseFloat env (priceText c) = None \<longrightarrow> parsePrice env c = 0)"
  by (simp add: getUserMonthlySummary_def summaryLoop_filter countedRows_def priceSum_def
      parsePrice_def)

theorem monthly_summary_counts_rows_example:
  "getUserMonthlySummary demoEnv
      [[''U1'', ''x'', ''2024-05-15T10:00:00.000Z'', ''coffee'', ''2''],
       [''U1'', ''Ann'', ''2024-05-15T10:00:00.000Z'', ''coffee'', ''2''],
       [''U2'', ''Bob'', ''2024-05-15T10:00:00.000Z'', ''coffee'', ''2''],
       [''U1'', ''Ann'', ''2024-04-10T09:00:00.000Z'', ''tea'', ''1.5''],
       [''U1'', ''Ann'', ''yesterday'', ''tea'', ''1.5''],
       [''U1'', ''Ann'', ''2024-05-15T10:00:00.000Z'', ''tea'', ''free'']] ''U1'' may2024
     = \<lparr>coffee = 1, tea = 1, amount = 2\<rparr> \<and> parsePrice demoEnv (Some ''free'') = 0"
  using monthly_summary_counts_rows [of demoEnv _ "''U1''" may2024]
  by (simp add: countedRows_def countedRow_def kindCount_def priceSum_def cell_def
      parseCellDate_def parsePrice_def priceText_def demoEnv_def may2024_def april2024_def)

subsection \<open>Undo: the backwards scan and the deletion\<close>

lemma scanBack_result:
  "(scanBack rows u n = - 1 \<and> (\<forall>i. 1 \<le> i \<and> i \<le> n \<longrightarrow> cell (rows ! i) 0 \<noteq> Some u))
   \<or> (\<exists>i. scanBack rows u n = int i \<and> 1 \<le> i \<and> i \<le> n \<and> cell (rows ! i) 0 = Some u
        \<and> (\<forall>j. i < j \<and> j \<le> n \<longrightarrow> cell (rows ! j) 0 \<noteq> Some u))"
proof (induction n)
  case 0
  then show ?case by simp
next
  case (Suc n)
  show ?case
  proof (cases "cell (rows ! Suc n) 0 = Some u")
    case True
    then have "scanBack rows u (Suc n) = int (Suc n) \<and> 1 \<le> Suc n \<and> Suc n \<le> Suc n
      \<and> cell (rows ! Suc n) 0 = Some u
      \<and> (\<forall>j. Suc n < j \<and> j \<le> Suc n \<longrightarrow> cell (rows ! j) 0 \<noteq> Some u)"
      by auto
    then show ?thesis by blast
  next
    case False
    from Suc.IH show ?thesis
    proof
      assume a: "scanBack rows u n = - 1 \<and> (\<forall>i. 1 \<le> i \<and> i \<le> n \<longrightarrow> cell (rows ! i) 0 \<noteq> Some u)"
      have "\<forall>i. 1 \<le> i \<and> i \<le> Suc n \<longrightarrow> cell (rows ! i) 0 \<noteq> Some u"
        using a False by (auto simp: le_Suc_eq)
      with a False show ?thesis by simp
    next
      assume "\<exists>i. scanBack rows u n = int i \<and> 1 \<le> i \<and> i \<le> n \<and> cell (rows ! i) 0 = Some u
        \<and> (\<forall>j. i < j \<and> j \<le> n \<longrightarrow> cell (rows ! j) 0 \<noteq> Some u)"
      then obtain i where i: "scanBack rows u n = int i" "1 \<le> i" "i \<le> n"
        "cell (rows ! i) 0 = Some u" "\<forall>j. i < j \<and> j \<le> n \<longrightarrow> cell (rows ! j) 0 \<noteq> Some u"
        by blast
      have "\<forall>j. i < j \<and> j \<le> Suc n \<longrightarrow> cell (rows ! j) 0 \<noteq> Some u"
        using i(5) False by (auto simp: le_Suc_eq)
      with i False show ?thesis by auto
    qed
  qed
qed

lemma lastIndexFor_none:
  "list_all (\<lambda>r. cell r 0 \<noteq> Some u) (drop 1 rows) \<Longrightarrow> lastIndexFor rows u = - 1"
proof -
  assume a: "list_all (\<lambda>r. cell r 0 \<noteq> Some u) (drop 1 rows)"
  have "\<And>i. 1 \<le> i \<Longrightarrow> i \<le> length rows - 1 \<Longrightarrow> cell (rows ! i) 0 \<noteq> Some u"
  proof -
    fix i assume i: "1 \<le> i" "i \<le> length rows - 1"
    then have "i - 1 < length (drop 1 rows)" by simp
    with a have "cell (drop 1 rows ! (i - 1)) 0 \<noteq> Some u"
      by (simp add: list_all_length)
    with i show "cell (rows ! i) 0 \<noteq> Some u" by simp
  qed
  with scanBack_result [of rows u "length rows - 1"] show ?thesis
    unfolding lastIndexFor_def by auto
qed

lemma lastIndexFor_cases:
  "(lastIndexFor rows u = - 1 \<and> list_all (\<lambda>r. cell r 0 \<noteq> Some u) (drop 1 rows))
   \<or> (\<exists>i. lastIndexFor rows u = int i \<and> 0 < i \<and> i < length rows \<and> cell (rows ! i) 0 = Some u)"
proof -
  from scanBack_result [of rows u "length rows - 1"] show ?thesis
  proof
    assume a: "scanBack rows u (length rows - 1) = - 1 \<and>
      (\<forall>i. 1 \<le> i \<and> i \<le> length rows - 1 \<longrightarrow> cell (rows ! i) 0 \<noteq> Some u)"
    have "list_all (\<lambda>r. cell r 0 \<noteq> Some u) (drop 1 rows)"
      unfolding list_all_length
    proof (intro allI impI)
      fix n assume "n < length (drop 1 rows)"
      then have "1 \<le> Suc n \<and> Suc n \<le> length rows - 1" by simp
      with a have "cell (rows ! Suc n) 0 \<noteq> Some u" by blast
      then show "cell (drop 1 rows ! n) 0 \<noteq> Some u"
        using \<open>n < length (drop 1 rows)\<close> by simp
    qed
    with a show ?thesis by (simp add: lastIndexFor_def)
  next
    assume "\<exists>i. scanBack rows u (length rows - 1) = int i \<and> 1 \<le> i \<and> i \<le> length rows - 1 \<and>
      cell (rows ! i) 0 = Some u \<and>
      (\<forall>j. i < j \<and> j \<le> length rows - 1 \<longrightarrow> cell (rows ! j) 0 \<noteq> Some u)"
    then obtain i where "scanBack rows u (length rows - 1) = int i" "1 \<le> i"
      "i \<le> length rows - 1" "cell (rows ! i) 0 = Some u" by blast
    then have "lastIndexFor rows u = int i \<and> 0 < i \<and> i < length rows \<and> cell (rows ! i) 0 = Some u"
      by (simp add: lastIndexFor_def)
    then show ?thesis by blast
  qed
qed

text \<open>
  C6. For a user with no data row (no row after the header whose user identifier is the
  user's), undoing the last choice is a no-op: the whole state, so the ledger's rows and
  their number and the counters, is as before, and the call returns normally unless its
  read of the sheet is rejected.
\<close>

theorem undo_without_rows_is_noop:
  "noDataRow (sheet st) userId \<Longrightarrow>
   revokeLastChoice env userId st = (st, valuesGet env ColumnsAE (sheet st))
   \<and> sheet (fst (revokeLastChoice env userId st)) = sheet st
   \<and> length (sheet (fst (revokeLastChoice env userId st))) = length (sheet st)
   \<and> userChoices (fst (revokeLastChoice env userId st)) = userChoices st"
  by (simp add: revokeLastChoice_def lastIndexFor_none noDataRow_def split: option.splits)

theorem undo_without_rows_is_noop_example:
  "noDataRow [header, [''U2'', ''Bob'', ''2024-05-15T10:00:00.000Z'', ''tea'', ''1.5'']] ''U1''
   \<and> revokeLastChoice demoEnv ''U1''
        (initial\<lparr>sheet := [header, [''U2'', ''Bob'', ''2024-05-15T10:00:00.000Z'', ''tea'', ''1.5'']]\<rparr>)
      = (initial\<lparr>sheet := [header, [''U2'', ''Bob'', ''2024-05-15T10:00:00.000Z'', ''tea'', ''1.5'']]\<rparr>,
         None)"
  using undo_without_rows_is_noop [of
      "initial\<lparr>sheet := [header, [''U2'', ''Bob'', ''2024-05-15T10:00:00.000Z'', ''tea'', ''1.5'']]\<rparr>"
      "''U1''" demoEnv]
  by (simp add: noDataRow_def cell_def demoEnv_def)

lemma take1_deleteRow: "0 < i \<Longrightarrow> take (Suc 0) (deleteRow rows i) = take (Suc 0) rows"
  by (cases rows; cases i) (simp_all add: deleteRow_def)

lemma getSheetId_frame:
  "getSheetId env st = Inr (i, st2) \<Longrightarrow>
   userChoices st2 = userChoices st \<and> sheet st2 = sheet st
   \<and> userMessageRefs st2 = userMessageRefs st \<and> monthlySettled st2 = monthlySettled st"
  by (auto simp: getSheetId_def Let_def split: sum.splits option.splits if_splits)

text \<open>What a call of \<^verbatim>\<open>revokeLastChoice\<close> leaves: nothing changed (rejected read, no
  row of the user, no counter object), or the counter written for the row found at an
  index \<open>i > 0\<close> and, when the call returned normally, that row deleted.\<close>

lemma revoke_cases:
  "(fst (revokeLastChoice env userId st) = st
      \<and> (snd (revokeLastChoice env userId st) = None \<longrightarrow> noDataRow (sheet st) userId))
   \<or> (\<exists>i obj. 0 < i \<and> i < length (sheet st) \<and> cell (sheet st ! i) 0 = Some userId
        \<and> lastIndexFor (sheet st) userId = int i
        \<and> userChoices st userId = Some obj
        \<and> userChoices (fst (revokeLastChoice env userId st)) =
             (userChoices st)(userId \<mapsto>
                obj(propertyKey (cell (sheet st ! i) 3) \<mapsto>
                  decrementFloor (obj (propertyKey (cell (sheet st ! i) 3)))))
        \<and> (if snd (revokeLastChoice env userId st) = None
            then sheet (fst (revokeLastChoice env userId st)) = deleteRow (sheet st) i
            else sheet (fst (revokeLastChoice env userId st)) = sheet st))"
proof (cases "valuesGet env ColumnsAE (sheet st)")
  case (Some e)
  then show ?thesis by (simp add: revokeLastChoice_def)
next
  case None
  from lastIndexFor_cases [of "sheet st" userId] show ?thesis
  proof
    assume "lastIndexFor (sheet st) userId = - 1 \<and>
      list_all (\<lambda>r. cell r 0 \<noteq> Some userId) (drop 1 (sheet st))"
    then show ?thesis using None by (simp add: revokeLastChoice_def noDataRow_def)
  next
    assume "\<exists>i. lastIndexFor (sheet st) userId = int i \<and> 0 < i \<and> i < length (sheet st) \<and>
      cell (sheet st ! i) 0 = Some userId"
    then obtain i where i: "lastIndexFor (sheet st) userId = int i" "0 < i"
      "i < length (sheet st)" "cell (sheet st ! i) 0 = Some userId" by blast
    show ?thesis
    proof (cases "userChoices st userId")
      case n: None
      with i None show ?thesis by (simp add: revokeLastChoice_def Let_def)
    next
      case (Some obj)
      let ?st1 = "st\<lparr>userChoices := (userChoices st)(userId \<mapsto>
                       obj(propertyKey (cell (sheet st ! i) 3) \<mapsto>
                         decrementFloor (obj (propertyKey (cell (sheet st ! i) 3)))))\<rparr>"
      have r: "revokeLastChoice env userId st =
          (case getSheetId env ?st1 of
             Inl e \<Rightarrow> (?st1, Some e)
           | Inr (sheetId, st2) \<Rightarrow>
               (case batchUpdate env (sheet st) sheetId i of
                  Some e \<Rightarrow> (st2, Some e)
                | None \<Rightarrow> (st2\<lparr>sheet := deleteRow (sheet st) i\<rparr>, None)))"
        using i None Some
        by (simp add: revokeLastChoice_def Let_def split: sum.splits option.splits prod.splits)
      have "userChoices (fst (revokeLastChoice env userId st)) = userChoices ?st1
        \<and> (if snd (revokeLastChoice env userId st) = None
            then sheet (fst (revokeLastChoice env userId st)) = deleteRow (sheet st) i
            else sheet (fst (revokeLastChoice env userId st)) = sheet st)"
      proof (cases "getSheetId env ?st1")
        case (Inl e)
        then show ?thesis by (simp add: r)
      next
        case (Inr p)
        obtain sid st2 where p: "p = (sid, st2)" by (cases p)
        note f = getSheetId_frame [OF Inr [unfolded p]]
        show ?thesis
          by (cases "batchUpdate env (sheet st) sid i") (simp_all add: r Inr p f)
      qed
      with i Some show ?thesis by auto
    qed
  qed
qed

text \<open>
  C10. For every ledger and every user, undoing the last choice never deletes row 0, the
  header: the ledger is left as it was, or exactly one row at a position greater than 0 is
  deleted, so the first row is the same before and after, also when row 0 carries the
  user's identifier, and whichever call is rejected.
\<close>

theorem undo_keeps_header:
  "take 1 (sheet (fst (revokeLastChoice env userId st))) = take 1 (sheet st)
   \<and> (sheet (fst (revokeLastChoice env userId st)) = sheet st
      \<or> (\<exists>i. 0 < i \<and> i < length (sheet st)
            \<and> sheet (fst (revokeLastChoice env userId st)) = deleteRow (sheet st) i))"
proof -
  from revoke_cases [of env userId st]
  have "sheet (fst (revokeLastChoice env userId st)) = sheet st
      \<or> (\<exists>i. 0 < i \<and> i < length (sheet st)
            \<and> sheet (fst (revokeLastChoice env userId st)) = deleteRow (sheet st) i)"
    by (elim disjE exE conjE) (simp, metis)
  then show ?thesis by (auto simp: take1_deleteRow)
qed

theorem undo_keeps_header_example:
  "take 1 (sheet (fst (revokeLastChoice demoEnv ''U1''
      (initial\<lparr>sheet := [[''U1'', ''Ann'', ''2024-05-15T10:00:00.000Z'', ''tea'', ''1.5'']]\<rparr>))))
   = [[''U1'', ''Ann'', ''2024-05-15T10:00:00.000Z'', ''tea'', ''1.5'']]"
  using undo_keeps_header [of demoEnv "''U1''"
      "initial\<lparr>sheet := [[''U1'', ''Ann'', ''2024-05-15T10:00:00.000Z'', ''tea'', ''1.5'']]\<rparr>"]
  by simp

subsection \<open>Counters and ledger\<close>

lemma headerEnsured_drop: "drop (Suc 0) (headerEnsured rows) = drop (Suc 0) rows"
  by (simp add: headerEnsured_def)

lemma headerEnsured_nonempty: "headerEnsured rows \<noteq> []"
  by (cases rows) (simp_all add: headerEnsured_def firstRowEmpty_def)

lemma drop_appendRow_headerEnsured:
  "drop (Suc 0) (appendRow (headerEnsured rows) r) = drop (Suc 0) rows @ [r]"
proof -
  obtain h t where ht: "headerEnsured rows = h # t"
    using headerEnsured_nonempty [of rows] by (cases "headerEnsured rows") auto
  with headerEnsured_drop [of rows] have "t = drop (Suc 0) rows" by simp
  with ht show ?thesis by (simp add: appendRow_def)
qed

lemma ensureHeaderRow_Inr:
  "ensureHeaderRow env rows = Inr rows' \<Longrightarrow> rows' = headerEnsured rows"
  by (auto simp: ensureHeaderRow_def headerEnsured_def split: option.splits if_splits)

lemma userChoices_logChoice:
  "userChoices (fst (logChoice env now userId choice st)) userId =
     Some ((case userChoices st userId of None \<Rightarrow> newCounters | Some c \<Rightarrow> c)
            (choice \<mapsto> increment ((case userChoices st userId of None \<Rightarrow> newCounters | Some c \<Rightarrow> c) choice)))"
  by (simp add: logChoice_def Let_def split: sum.splits option.splits)

lemma sheet_logChoice:
  "snd (logChoice env now userId choice st) = None \<Longrightarrow>
   sheet (fst (logChoice env now userId choice st)) =
     appendRow (headerEnsured (sheet st))
       [userId, getUserDisplayName env userId, toISOString now, choice,
        sheetNumber env (if choice = ''coffee'' then coffeePrice env else teaPrice env)]"
  by (auto simp: logChoice_def Let_def dest: ensureHeaderRow_Inr split: sum.splits option.splits)

lemma ledgerCount_logChoice:
  "snd (logChoice env now userId choice st) = None \<Longrightarrow>
   ledgerCount (sheet (fst (logChoice env now userId choice st))) userId kind =
     ledgerCount (sheet st) userId kind + (if kind = choice then 1 else 0)"
  by (simp add: sheet_logChoice ledgerCount_def drop_appendRow_headerEnsured cell_def)

lemma logChoice_preserves:
  assumes k: "kind = ''coffee'' \<or> kind = ''tea''"
    and ok: "snd (logChoice env now userId choice st) = None"
    and m: "counterMatches st userId kind"
  shows "counterMatches (fst (logChoice env now userId choice st)) userId kind"
proof (cases "userChoices st userId")
  case None
  with m have z: "ledgerCount (sheet st) userId kind = 0"
    by (simp add: counterMatches_def)
  from k have n: "newCounters kind = Some (Num 0)"
    by (auto simp: newCounters_def)
  show ?thesis
    using None z n
    by (auto simp: counterMatches_def userChoices_logChoice ledgerCount_logChoice [OF ok])
next
  case (Some obj)
  with m have "obj kind = Some (Num (int (ledgerCount (sheet st) userId kind)))"
    by (simp add: counterMatches_def)
  with Some show ?thesis
    by (auto simp: counterMatches_def userChoices_logChoice ledgerCount_logChoice [OF ok])
qed

lemma filter_deleteRow_length:
  assumes "i < length xs"
  shows "length (filter P (deleteRow xs i)) + (if P (xs ! i) then 1 else 0) = length (filter P xs)"
proof -
  have "xs = take i xs @ xs ! i # drop (Suc i) xs"
    using assms by (rule id_take_nth_drop)
  then have "filter P xs = filter P (take i xs) @ filter P [xs ! i] @ filter P (drop (Suc i) xs)"
    by (metis append_Cons append_Nil filter_append)
  then show ?thesis by (simp add: deleteRow_def)
qed

lemma drop_deleteRow:
  "0 < i \<Longrightarrow> drop (Suc 0) (deleteRow xs i) = deleteRow (drop (Suc 0) xs) (i - Suc 0)"
  by (cases xs; cases i) (simp_all add: deleteRow_def)

lemma ledgerCount_deleteRow:
  assumes "0 < i" "i < length rows"
  shows "ledgerCount (deleteRow rows i) userId kind
           + (if cell (rows ! i) 0 = Some userId \<and> cell (rows ! i) 3 = Some kind then 1 else 0)
         = ledgerCount rows userId kind"
proof -
  let ?P = "\<lambda>r. cell r 0 = Some userId \<and> cell r 3 = Some kind"
  have a: "i - Suc 0 < length (drop (Suc 0) rows)" using assms by simp
  have b: "drop (Suc 0) rows ! (i - Suc 0) = rows ! i" using assms by simp
  have "length (filter ?P (deleteRow (drop (Suc 0) rows) (i - Suc 0)))
          + (if ?P (rows ! i) then 1 else 0)
        = length (filter ?P (drop (Suc 0) rows))"
    using filter_deleteRow_length [OF a, of ?P] unfolding b .
  then show ?thesis
    unfolding ledgerCount_def One_nat_def drop_deleteRow [OF assms(1)] .
qed

lemma revoke_preserves:
  assumes k: "kind \<noteq> ''undefined''"
    and ok: "snd (revokeLastChoice env userId st) = None"
    and m: "counterMatches st userId kind"
  shows "counterMatches (fst (revokeLastChoice env userId st)) userId kind"
proof -
  from revoke_cases [of env userId st] show ?thesis
  proof (elim disjE exE conjE)
    assume "fst (revokeLastChoice env userId st) = st"
    with m show ?thesis by simp
  next
    fix i obj
    assume i: "0 < i" "i < length (sheet st)" "cell (sheet st ! i) 0 = Some userId"
      and obj: "userChoices st userId = Some obj"
      and u: "userChoices (fst (revokeLastChoice env userId st)) =
             (userChoices st)(userId \<mapsto>
                obj(propertyKey (cell (sheet st ! i) 3) \<mapsto>
                  decrementFloor (obj (propertyKey (cell (sheet st ! i) 3)))))"
      and s: "if snd (revokeLastChoice env userId st) = None
            then sheet (fst (revokeLastChoice env userId st)) = deleteRow (sheet st) i
            else sheet (fst (revokeLastChoice env userId st)) = sheet st"
    from s ok have sh: "sheet (fst (revokeLastChoice env userId st)) = deleteRow (sheet st) i"
      by simp
    from m obj have c: "obj kind = Some (Num (int (ledgerCount (sheet st) userId kind)))"
      by (simp add: counterMatches_def)
    note d = ledgerCount_deleteRow [OF i(1) i(2), of userId kind]
    show ?thesis
    proof (cases "cell (sheet st ! i) 3 = Some kind")
      case True
      with d i(3) have "ledgerCount (deleteRow (sheet st) i) userId kind + 1
        = ledgerCount (sheet st) userId kind" by simp
      then show ?thesis
        using True c by (simp add: counterMatches_def u sh propertyKey_def)
    next
      case False
      with k have ne: "propertyKey (cell (sheet st ! i) 3) \<noteq> kind"
        by (auto simp: propertyKey_def split: option.splits)
      from d False have "ledgerCount (deleteRow (sheet st) i) userId kind
        = ledgerCount (sheet st) userId kind" by simp
      then show ?thesis
        using ne c by (simp add: counterMatches_def u sh)
    qed
  qed
qed

lemma perform_preserves:
  assumes "kind = ''coffee'' \<or> kind = ''tea''" "snd (perform env userId st c) = None"
    "counterMatches st userId kind"
  shows "counterMatches (fst (perform env userId st c)) userId kind"
proof (cases c)
  case (RecordChoice now choice)
  with assms show ?thesis by (simp add: logChoice_preserves)
next
  case UndoLastChoice
  from assms(1) have "kind \<noteq> ''undefined''" by auto
  with UndoLastChoice assms(2) assms(3) show ?thesis by (simp add: revoke_preserves)
qed

lemma performAll_preserves:
  assumes "kind = ''coffee'' \<or> kind = ''tea''"
  shows "allCompleted env userId calls st \<Longrightarrow> counterMatches st userId kind \<Longrightarrow>
         counterMatches (performAll env userId calls st) userId kind"
  unfolding performAll_def
  by (induction calls arbitrary: st) (simp_all add: perform_preserves [OF assms])

lemma initial_matches: "counterMatches initial userId kind"
  by (simp add: counterMatches_def initial_def ledgerCount_def)

text \<open>
  C1, amended. For every serialized sequence of recordings and undos for one user, starting
  from the empty ledger and the empty in-memory state, after every call (after the first
  \<open>n\<close> calls, for every \<open>n\<close>) up to which every call returned normally, so that no request
  to the spreadsheet service was rejected, the counter of each kind, coffee and tea, equals
  the number of ledger rows of that kind for that user; before the user's first recording
  there is no counter object and no such row.
\<close>

theorem counters_agree_with_ledger:
  "kind = ''coffee'' \<or> kind = ''tea'' \<Longrightarrow> n \<le> length calls \<Longrightarrow>
   allCompleted env userId (take n calls) initial \<Longrightarrow>
   counterMatches (performAll env userId (take n calls) initial) userId kind"
  by (rule performAll_preserves [OF _ _ initial_matches])

lemma sheetsUp_demoEnv: "sheetsUp demoEnv"
  by (simp add: sheetsUp_def demoEnv_def)

lemma logChoice_up:
  "sheetsUp env \<Longrightarrow>
   logChoice env now userId choice st =
     (st\<lparr>userChoices := (userChoices st)(userId \<mapsto>
            (case userChoices st userId of None \<Rightarrow> newCounters | Some c \<Rightarrow> c)
              (choice \<mapsto> increment ((case userChoices st userId of None \<Rightarrow> newCounters | Some c \<Rightarrow> c) choice))),
          sheet := appendRow (headerEnsured (sheet st))
            [userId, getUserDisplayName env userId, toISOString now, choice,
             sheetNumber env (if choice = ''coffee'' then coffeePrice env else teaPrice env)]\<rparr>,
      None)"
  by (simp add: logChoice_def Let_def ensureHeaderRow_def headerEnsured_def sheetsUp_def)

theorem counters_agree_with_ledger_example:
  "(''tea'' = ''coffee'' \<or> ''tea'' = ''tea'')
   \<and> (2::nat) \<le> length [RecordChoice may2024 ''tea'', RecordChoice may2024 ''coffee'', UndoLastChoice]
   \<and> allCompleted demoEnv ''U1''
        (take 2 [RecordChoice may2024 ''tea'', RecordChoice may2024 ''coffee'', UndoLastChoice]) initial
   \<and> counterMatches
        (performAll demoEnv ''U1''
           (take 2 [RecordChoice may2024 ''tea'', RecordChoice may2024 ''coffee'', UndoLastChoice])
           initial) ''U1'' ''tea''"
proof -
  have c: "allCompleted demoEnv ''U1''
        (take 2 [RecordChoice may2024 ''tea'', RecordChoice may2024 ''coffee'', UndoLastChoice]) initial"
    by (simp add: logChoice_up [OF sheetsUp_demoEnv])
  from counters_agree_with_ledger [of "''tea''" 2
      "[RecordChoice may2024 ''tea'', RecordChoice may2024 ''coffee'', UndoLastChoice]"
      demoEnv "''U1''"] c
  show ?thesis by simp
qed

text \<open>
  C1 as stated fails: when the spreadsheet service rejects the append, the recording
  throws after the counter was incremented (line 280) and no row was appended; the counter
  of coffee is 1 and the ledger holds no coffee row of the user.
\<close>

theorem rejected_append_leaves_counter:
  "snd (logChoice appendDown may2024 ''U1'' ''coffee'' initial) = Some (ApiError ''unavailable'')
   \<and> counterOf (performAll appendDown ''U1'' [RecordChoice may2024 ''coffee''] initial) ''U1'' ''coffee''
       = Some (Num 1)
   \<and> ledgerCount (sheet (performAll appendDown ''U1'' [RecordChoice may2024 ''coffee''] initial))
        ''U1'' ''coffee'' = 0
   \<and> \<not> counterMatches (performAll appendDown ''U1'' [RecordChoice may2024 ''coffee''] initial)
        ''U1'' ''coffee''"
proof -
  have e: "valuesGet appendDown HeaderCells [] = None" "valuesUpdate appendDown [] = None"
    "\<And>rows r. valuesAppend appendDown rows r = Some (ApiError ''unavailable'')"
    by (simp_all add: appendDown_def demoEnv_def)
  have f: "userChoices initial = Map.empty" "sheet initial = []"
    by (simp_all add: initial_def)
  have l: "logChoice appendDown may2024 ''U1'' ''coffee'' initial =
      (initial\<lparr>userChoices := [''U1'' \<mapsto> newCounters(''coffee'' \<mapsto> Num 1)], sheet := [header]\<rparr>,
       Some (ApiError ''unavailable''))"
    by (simp add: logChoice_def Let_def ensureHeaderRow_def firstRowEmpty_def e f newCounters_def)
  show ?thesis
    by (simp add: performAll_def l counterOf_def counterMatches_def ledgerCount_def)
qed

subsection \<open>Coffee, tea, undo\<close>

lemma getSheetId_up:
  "sheetsUp env \<Longrightarrow> \<exists>i c. getSheetId env st = Inr (i, st\<lparr>sheetIdCache := c\<rparr>)"
proof -
  assume "sheetsUp env"
  then obtain sheets i where s: "spreadsheetsGet env = Inr sheets"
    "map_of sheets (sheetTitle env) = Some i"
    by (auto simp: sheetsUp_def)
  show ?thesis
  proof (cases "sheetIdCache st")
    case None
    then have "getSheetId env st = Inr (i, st\<lparr>sheetIdCache := Some i\<rparr>)"
      using s by (simp add: getSheetId_def)
    then show ?thesis by blast
  next
    case (Some a)
    show ?thesis
    proof (cases "a = 0")
      case True
      then have "getSheetId env st = Inr (i, st\<lparr>sheetIdCache := Some i\<rparr>)"
        using s Some by (simp add: getSheetId_def)
      then show ?thesis by blast
    next
      case False
      have e: "st\<lparr>sheetIdCache := Some a\<rparr> = st" using Some by simp
      have "getSheetId env st = Inr (a, st)"
        using False Some by (simp add: getSheetId_def)
      then have "getSheetId env st = Inr (a, st\<lparr>sheetIdCache := Some a\<rparr>)"
        unfolding e .
      then show ?thesis by blast
    qed
  qed
qed

lemma revoke_up:
  assumes up: "sheetsUp env" and i: "lastIndexFor (sheet st) userId = int i" "0 < i"
    and obj: "userChoices st userId = Some obj"
  shows "\<exists>c. revokeLastChoice env userId st =
     (st\<lparr>userChoices := (userChoices st)(userId \<mapsto>
            obj(propertyKey (cell (sheet st ! i) 3) \<mapsto>
              decrementFloor (obj (propertyKey (cell (sheet st ! i) 3))))),
          sheetIdCache := c, sheet := deleteRow (sheet st) i\<rparr>, None)"
proof -
  let ?st1 = "st\<lparr>userChoices := (userChoices st)(userId \<mapsto>
            obj(propertyKey (cell (sheet st ! i) 3) \<mapsto>
              decrementFloor (obj (propertyKey (cell (sheet st ! i) 3)))))\<rparr>"
  from getSheetId_up [OF up, of ?st1] obtain sid c where
    g: "getSheetId env ?st1 = Inr (sid, ?st1\<lparr>sheetIdCache := c\<rparr>)" by blast
  have v: "valuesGet env ColumnsAE (sheet st) = None" "\<And>k. batchUpdate env (sheet st) sid k = None"
    using up by (simp_all add: sheetsUp_def)
  have "revokeLastChoice env userId st = (?st1\<lparr>sheetIdCache := c, sheet := deleteRow (sheet st) i\<rparr>, None)"
    using i obj by (simp add: revokeLastChoice_def Let_def v g)
  then show ?thesis by auto
qed

lemma isBlank_UserID: "\<not> isBlank ''UserID''"
  by (simp add: isBlank_def isWhitespace_def)

lemma headerEnsured_header: "headerEnsured (header # rs) = header # rs"
  by (simp add: headerEnsured_def firstRowEmpty_def header_def isBlank_UserID)

lemma headerEnsured_empty: "headerEnsured [] = [header]"
  by (simp add: headerEnsured_def firstRowEmpty_def)

text \<open>
  C7. From the empty ledger, with coffee at 2.00 and tea at 1.50 (numbers that the sheet
  gives back as written, clock readings in the month asked for, and a spreadsheet service
  that rejects nothing), a user who records coffee and then tea has the monthly summary
  coffee 1, tea 1, amount 3.50; one undo then removes the tea row, leaving the header and
  the coffee row, and the summary is coffee 1, tea 0, amount 2.00.
\<close>

theorem coffee_then_tea_then_undo:
  fixes env :: "rat env"
  assumes prices: "coffeePrice env = 2" "teaPrice env = 3 / 2"
    and parsed: "parsePrice env (Some (sheetNumber env 2)) = 2"
      "parsePrice env (Some (sheetNumber env (3 / 2))) = 3 / 2"
    and dates: "inMonthOf env today (toISOString t1)" "inMonthOf env today (toISOString t2)"
    and up: "sheetsUp env"
  shows "getUserMonthlySummary env
           (sheet (fst (logChoice env t2 userId ''tea''
              (fst (logChoice env t1 userId ''coffee'' initial)))))
           userId today = \<lparr>coffee = 1, tea = 1, amount = 7 / 2\<rparr>
     \<and> (\<exists>st3. revokeLastChoice env userId
                 (fst (logChoice env t2 userId ''tea''
                    (fst (logChoice env t1 userId ''coffee'' initial))))
               = (st3, None)
          \<and> sheet st3 = [header,
                [userId, getUserDisplayName env userId, toISOString t1, ''coffee'', sheetNumber env 2]]
          \<and> getUserMonthlySummary env (sheet st3) userId today
              = \<lparr>coffee = 1, tea = 0, amount = 2\<rparr>)"
proof -
  let ?r1 = "[userId, getUserDisplayName env userId, toISOString t1, ''coffee'', sheetNumber env 2]"
  let ?r2 = "[userId, getUserDisplayName env userId, toISOString t2, ''tea'', sheetNumber env (3 / 2)]"
  let ?st2 = "fst (logChoice env t2 userId ''tea'' (fst (logChoice env t1 userId ''coffee'' initial)))"
  have s2: "sheet ?st2 = [header, ?r1, ?r2]"
    by (simp add: logChoice_up [OF up] initial_def headerEnsured_empty appendRow_def
        headerEnsured_header prices)
  have uc: "userChoices ?st2 userId \<noteq> None"
    by (simp add: logChoice_up [OF up])
  have c1: "countedRow env userId today ?r1" and c2: "countedRow env userId today ?r2"
    using dates by (simp_all add: countedRow_def cell_def parseCellDate_def inMonthOf_def)
  have p1: "parsePrice env (cell ?r1 4) = 2" and p2: "parsePrice env (cell ?r2 4) = 3 / 2"
    using parsed by (simp_all add: cell_def)
  have sum2: "getUserMonthlySummary env [header, ?r1, ?r2] userId today
      = \<lparr>coffee = 1, tea = 1, amount = 7 / 2\<rparr>"
    by (simp add: getUserMonthlySummary_def summaryLoop_filter kindCount_def c1 c2 p1 p2
        del: summaryLoop.simps) (simp add: cell_def)
  have sum1: "getUserMonthlySummary env [header, ?r1] userId today
      = \<lparr>coffee = 1, tea = 0, amount = 2\<rparr>"
    by (simp add: getUserMonthlySummary_def summaryLoop_filter kindCount_def c1 p1
        del: summaryLoop.simps) (simp add: cell_def)
  have li: "lastIndexFor (sheet ?st2) userId = int 2"
    unfolding s2 by (simp add: lastIndexFor_def cell_def)
  obtain obj where obj: "userChoices ?st2 userId = Some obj"
    using uc by blast
  have p: "(0::nat) < 2" by simp
  from revoke_up [OF up li p obj] obtain st3 where
    r: "revokeLastChoice env userId ?st2 = (st3, None)"
       "sheet st3 = deleteRow (sheet ?st2) 2"
    by auto
  have "sheet st3 = [header, ?r1]"
    unfolding r(2) s2 by (simp add: deleteRow_def)
  with r(1) s2 sum2 sum1 show ?thesis by simp
qed

theorem coffee_then_tea_then_undo_example:
  "getUserMonthlySummary demoEnv
      (sheet (fst (logChoice demoEnv may2024 ''U1'' ''tea''
         (fst (logChoice demoEnv may2024 ''U1'' ''coffee'' initial)))))
      ''U1'' may2024 = \<lparr>coffee = 1, tea = 1, amount = 7 / 2\<rparr>
   \<and> (\<exists>st3. revokeLastChoice demoEnv ''U1''
          (fst (logChoice demoEnv may2024 ''U1'' ''tea''
             (fst (logChoice demoEnv may2024 ''U1'' ''coffee'' initial))))
         = (st3, None)
        \<and> sheet st3 = [header, [''U1'', ''U1'', ''2024-05-15T10:00:00.000Z'', ''coffee'', ''2'']]
        \<and> getUserMonthlySummary demoEnv (sheet st3) ''U1'' may2024
            = \<lparr>coffee = 1, tea = 0, amount = 2\<rparr>)"
proof -
  have a: "coffeePrice demoEnv = 2" "teaPrice demoEnv = 3 / 2"
    "parsePrice demoEnv (Some (sheetNumber demoEnv 2)) = 2"
    "parsePrice demoEnv (Some (sheetNumber demoEnv (3 / 2))) = 3 / 2"
    "inMonthOf demoEnv may2024 (toISOString may2024)"
    by (simp_all add: demoEnv_def parsePrice_def priceText_def inMonthOf_def may2024_def)
  have b: "getUserDisplayName demoEnv ''U1'' = ''U1''" "sheetNumber demoEnv 2 = ''2''"
    "toISOString may2024 = ''2024-05-15T10:00:00.000Z''"
    by (simp_all add: demoEnv_def getUserDisplayName_def may2024_def)
  from coffee_then_tea_then_undo [OF a(1) a(2) a(3) a(4) a(5) a(5) sheetsUp_demoEnv, of "''U1''"]
  show ?thesis unfolding b .
qed

subsection \<open>The aggregate tally\<close>

text \<open>
  C3 says that the tally of \<^verbatim>\<open>/monthly_tally\<close> groups as the monthly summary does,
  restricted to the rows of the reference month. The handler reads no date at all: for a
  ledger whose only row is a coffee of April 2024, the tally holds coffee 1 and amount 2 for
  the user, while the user's monthly summary for May 2024 is coffee 0, tea 0, amount 0.
\<close>

theorem monthly_tally_ignores_month:
  "map_of (monthlyTally demoEnv
      [header, [''U1'', ''Ann'', ''2024-04-10T09:00:00.000Z'', ''coffee'', ''2'']]) ''U1''
     = Some \<lparr>coffee = 1, tea = 0, amount = 2\<rparr>
   \<and> getUserMonthlySummary demoEnv
      [header, [''U1'', ''Ann'', ''2024-04-10T09:00:00.000Z'', ''coffee'', ''2'']] ''U1'' may2024
     = \<lparr>coffee = 0, tea = 0, amount = 0\<rparr>"
  by (simp add: monthlyTally_def getUserMonthlySummary_def Let_def cell_def propertyKey_def
      parsePrice_def priceText_def parseCellDate_def bump_def demoEnv_def may2024_def april2024_def)

subsection \<open>Undo of a row of an unrecognised kind\<close>

text \<open>
  C5 says that an undo whose most recent row has a kind other than coffee or tea deletes
  that row and leaves the counters alone. For a user with no counter object (the counters
  do not survive a restart, the ledger does) and a spreadsheet service that rejects nothing,
  the row is found at index 1, and then \<^verbatim>\<open>userChoices[userId][lastChoice]\<close> throws a
  \<^verbatim>\<open>TypeError\<close> before the deletion is requested: the state is as before and the row
  stays. \<^verbatim>\<open>revokeLastChoice\<close> has no guard like the one that opens \<^verbatim>\<open>logChoice\<close>.
\<close>

theorem undo_without_counters_throws:
  "userChoices initial ''U1'' = None
   \<and> lastIndexFor [header, [''U1'', ''Ann'', ''2024-05-15T10:00:00.000Z'', ''latte'', ''3'']] ''U1'' = 1
   \<and> revokeLastChoice demoEnv ''U1''
       (initial\<lparr>sheet := [header, [''U1'', ''Ann'', ''2024-05-15T10:00:00.000Z'', ''latte'', ''3'']]\<rparr>)
     = (initial\<lparr>sheet := [header, [''U1'', ''Ann'', ''2024-05-15T10:00:00.000Z'', ''latte'', ''3'']]\<rparr>,
        Some TypeError)"
  by (simp add: revokeLastChoice_def lastIndexFor_def cell_def initial_def Let_def demoEnv_def)

text \<open>With a counter object and no rejected request, the row is deleted and the counters
  of coffee and tea are as before, which is what the claim describes.\<close>

lemma undo_unrecognised_kind:
  assumes "sheetsUp env" "lastIndexFor (sheet st) userId = int i" "0 < i"
    and "userChoices st userId = Some obj"
    and "cell (sheet st ! i) 3 \<noteq> Some ''coffee''" "cell (sheet st ! i) 3 \<noteq> Some ''tea''"
  shows "\<exists>st'. revokeLastChoice env userId st = (st', None)
     \<and> sheet st' = deleteRow (sheet st) i
     \<and> counterOf st' userId ''coffee'' = counterOf st userId ''coffee''
     \<and> counterOf st' userId ''tea'' = counterOf st userId ''tea''
     \<and> (\<forall>v. v \<noteq> userId \<longrightarrow> userChoices st' v = userChoices st v)"
proof -
  have k: "propertyKey (cell (sheet st ! i) 3) \<noteq> ''coffee''"
    "propertyKey (cell (sheet st ! i) 3) \<noteq> ''tea''"
    using assms(5) assms(6) by (auto simp: propertyKey_def split: option.splits)
  from revoke_up [OF assms(1) assms(2) assms(3) assms(4)] obtain c where
    "revokeLastChoice env userId st =
     (st\<lparr>userChoices := (userChoices st)(userId \<mapsto>
            obj(propertyKey (cell (sheet st ! i) 3) \<mapsto>
              decrementFloor (obj (propertyKey (cell (sheet st ! i) 3))))),
          sheetIdCache := c, sheet := deleteRow (sheet st) i\<rparr>, None)"
    by blast
  then show ?thesis
    using assms(4) k by (simp add: counterOf_def)
qed

subsection \<open>Control message\<close>

lemma sendOrUpdate_cases:
  "(\<exists>e. sendOrUpdateControlMessage env now userId st = Inl e)
   \<or> (\<not> liveRecord (userMessageRefs st userId) (getCurrentMonthKey now)
       \<and> (\<exists>ch t. channelFor env userId (userMessageRefs st userId) = Inr ch
            \<and> chatPostMessage env ch (buildControlBlocks env now userId st) = Inr t
            \<and> sendOrUpdateControlMessage env now userId st =
               Inr (st\<lparr>chat := chat st @ [PostMessage ch (buildControlBlocks env now userId st)],
                       userMessageRefs := (userMessageRefs st)(userId \<mapsto>
                         \<lparr>channelId = ch, ts = t, monthKey = getCurrentMonthKey now\<rparr>)\<rparr>)))
   \<or> (liveRecord (userMessageRefs st userId) (getCurrentMonthKey now)
       \<and> (\<exists>r ch. userMessageRefs st userId = Some r
            \<and> channelFor env userId (userMessageRefs st userId) = Inr ch
            \<and> chatUpdate env ch (tsText r) (buildControlBlocks env now userId st) = None
            \<and> sendOrUpdateControlMessage env now userId st =
               Inr (st\<lparr>chat := chat st @
                        [ChatUpdate ch (tsText r) (buildControlBlocks env now userId st)]\<rparr>)))"
  by (auto simp: sendOrUpdateControlMessage_def Let_def liveRecord_def postNew_def
      updateInPlace_def split: sum.splits option.splits)






lemma refHasTs_kept:
  assumes p: "postsAnswerTs env" and h: "\<And>u. refHasTs (userMessageRefs st u)"
  shows "refHasTs (userMessageRefs (stateAfter (sendOrUpdateControlMessage env now userId st) st) u)"
proof -
  have t: "\<And>c b t. chatPostMessage env c b = Inr t \<Longrightarrow> truthy t"
  proof -
    fix c b t assume a: "chatPostMessage env c b = Inr t"
    from p have "case chatPostMessage env c b of Inl e \<Rightarrow> True | Inr t \<Rightarrow> truthy t"
      unfolding postsAnswerTs_def by blast
    with a show "truthy t" by simp
  qed
  from sendOrUpdate_cases [of env now userId st] show ?thesis
  proof (elim disjE exE conjE)
    fix e assume "sendOrUpdateControlMessage env now userId st = Inl e"
    then show ?thesis using h [of u] by (simp add: stateAfter_def)
  next
    fix ch ts'
    assume a: "chatPostMessage env ch (buildControlBlocks env now userId st) = Inr ts'"
      and r: "sendOrUpdateControlMessage env now userId st =
               Inr (st\<lparr>chat := chat st @ [PostMessage ch (buildControlBlocks env now userId st)],
                       userMessageRefs := (userMessageRefs st)(userId \<mapsto>
                         \<lparr>channelId = ch, ts = ts', monthKey = getCurrentMonthKey now\<rparr>)\<rparr>)"
    show ?thesis
      using h [of u] t [OF a] by (simp add: r stateAfter_def refHasTs_def)
  next
    fix rf ch
    assume r: "sendOrUpdateControlMessage env now userId st =
               Inr (st\<lparr>chat := chat st @
                        [ChatUpdate ch (tsText rf) (buildControlBlocks env now userId st)]\<rparr>)"
    show ?thesis using h [of u] by (simp add: r stateAfter_def)
  qed
qed

lemma monthKey_may2024: "getCurrentMonthKey may2024 = ''2024-05''"
  by (simp add: getCurrentMonthKey_def may2024_def showInt_def padStart2_def digits.simps Let_def)

lemma blocks_initial:
  "sheet st = [] \<Longrightarrow> monthlySettled st = Map.empty \<Longrightarrow> buildControlBlocks demoEnv may2024 u st =
    \<lparr>tallyCoffee = 0, tallyTea = 0, amountDue = ''0.00'', settledChecked = False\<rparr>"
  by (simp add: buildControlBlocks_def getUserMonthlySummary_def Let_def demoEnv_def)


subsection \<open>Settlement flags\<close>

lemma sendOrUpdate_keeps_settled:
  "monthlySettled (stateAfter (sendOrUpdateControlMessage env now userId st) st) = monthlySettled st"
  using sendOrUpdate_cases [of env now userId st]
  by (auto simp: stateAfter_def)

lemma settledFlag_setSettled:
  "mk' \<noteq> mk \<or> userId' \<noteq> userId \<Longrightarrow>
   settledFlag (setSettled userId mk flag settled) mk' userId' = settledFlag settled mk' userId'"
  by (auto simp: settledFlag_def setSettled_def Let_def split: option.splits)

lemma settled_toggle_settled:
  "monthlySettled (fst (settled_toggle env now userId opts st)) =
     setSettled userId (getCurrentMonthKey now)
       (case opts of None \<Rightarrow> False | Some vs \<Rightarrow> ''settled'' \<in> set vs) (monthlySettled st)"
proof -
  let ?st1 = "st\<lparr>monthlySettled := setSettled userId (getCurrentMonthKey now)
       (case opts of None \<Rightarrow> False | Some vs \<Rightarrow> ''settled'' \<in> set vs) (monthlySettled st)\<rparr>"
  have "fst (settled_toggle env now userId opts st)
      = stateAfter (sendOrUpdateControlMessage env now userId ?st1) ?st1"
    by (simp add: settled_toggle_def Let_def stateAfter_def split: sum.splits)
  then show ?thesis by (simp add: sendOrUpdate_keeps_settled)
qed

text \<open>
  C9. Setting the flag of a user for a month key changes at most the entry of that pair:
  the flag stored for any other month key, and for any other user under the same month key,
  is unchanged, as is the whole object of every other month key; the same holds for the
  state the \<^verbatim>\<open>settled_toggle\<close> handler leaves, whatever the chat platform answers.
\<close>

theorem settled_flag_frame:
  "mk' \<noteq> mk \<or> userId' \<noteq> userId \<Longrightarrow>
   settledFlag (setSettled userId mk flag settled) mk' userId' = settledFlag settled mk' userId'
   \<and> (mk' \<noteq> mk \<longrightarrow> setSettled userId mk flag settled mk' = settled mk')
   \<and> (mk = getCurrentMonthKey now \<longrightarrow>
        settledFlag (monthlySettled (fst (settled_toggle env now userId opts st))) mk' userId'
          = settledFlag (monthlySettled st) mk' userId')"
proof -
  assume ne: "mk' \<noteq> mk \<or> userId' \<noteq> userId"
  have a: "settledFlag (setSettled userId mk flag settled) mk' userId' = settledFlag settled mk' userId'"
    using ne by (rule settledFlag_setSettled)
  have b: "mk' \<noteq> mk \<longrightarrow> setSettled userId mk flag settled mk' = settled mk'"
    by (simp add: setSettled_def Let_def)
  have c: "mk = getCurrentMonthKey now \<longrightarrow>
        settledFlag (monthlySettled (fst (settled_toggle env now userId opts st))) mk' userId'
          = settledFlag (monthlySettled st) mk' userId'"
    using ne by (auto simp: settled_toggle_settled settledFlag_setSettled)
  from a b c show ?thesis by blast
qed

theorem settled_flag_frame_example:
  "settledFlag (setSettled ''U1'' ''2024-05'' True
        [''2024-06'' \<mapsto> [''U1'' \<mapsto> False], ''2024-05'' \<mapsto> [''U2'' \<mapsto> True]]) ''2024-06'' ''U1''
     = Some False
   \<and> settledFlag (setSettled ''U1'' ''2024-05'' True
        [''2024-06'' \<mapsto> [''U1'' \<mapsto> False], ''2024-05'' \<mapsto> [''U2'' \<mapsto> True]]) ''2024-05'' ''U2''
     = Some True
   \<and> settledFlag (setSettled ''U1'' ''2024-05'' True
        [''2024-06'' \<mapsto> [''U1'' \<mapsto> False], ''2024-05'' \<mapsto> [''U2'' \<mapsto> True]]) ''2024-05'' ''U1''
     = Some True"
proof -
  let ?m = "[''2024-06'' \<mapsto> [''U1'' \<mapsto> False], ''2024-05'' \<mapsto> [''U2'' \<mapsto> True]]"
  have a: "settledFlag ?m ''2024-06'' ''U1'' = Some False" "settledFlag ?m ''2024-05'' ''U2'' = Some True"
    by (simp_all add: settledFlag_def)
  have c: "settledFlag (setSettled ''U1'' ''2024-05'' True ?m) ''2024-05'' ''U1'' = Some True"
    by (simp add: settledFlag_def setSettled_def)
  have n1: "''2024-06'' \<noteq> ''2024-05'' \<or> ''U1'' \<noteq> ''U1''" by simp
  have n2: "''2024-05'' \<noteq> ''2024-05'' \<or> ''U2'' \<noteq> ''U1''" by simp
  from settled_flag_frame [OF n1, of True ?m may2024 demoEnv None initial]
       settled_flag_frame [OF n2, of True ?m may2024 demoEnv None initial] a c
  show ?thesis by simp
qed

subsection \<open>Monthly broadcast\<close>

lemma sendOrUpdate_Inl_frame:
  assumes "sendOrUpdateControlMessage env now userId st = Inl e"
  shows "attemptFailure env now st userId = [FailedDM userId e]" "attemptEvents env now st userId = []"
  using assms by (simp_all add: attemptFailure_def attemptEvents_def)

lemma sendOrUpdate_Inr_frame:
  assumes "sendOrUpdateControlMessage env now userId st = Inr st'"
  shows "attemptFailure env now st userId = []"
    and "chat st' = chat st @ attemptEvents env now st userId"
    and "length (attemptEvents env now st userId) = 1"
    and "console st' = console st" and "sheet st' = sheet st"
    and "monthlySettled st' = monthlySettled st"
    and "v \<noteq> userId \<Longrightarrow> userMessageRefs st' v = userMessageRefs st v"
  using assms sendOrUpdate_cases [of env now userId st]
  by (auto simp: attemptFailure_def attemptEvents_def)

lemma blocks_cong:
  "sheet s = sheet st \<Longrightarrow> monthlySettled s = monthlySettled st \<Longrightarrow>
   buildControlBlocks env now userId s = buildControlBlocks env now userId st"
  by (simp add: buildControlBlocks_def)

lemma attempt_cong:
  assumes r: "userMessageRefs s userId = userMessageRefs st userId" and sh: "sheet s = sheet st"
    and ms: "monthlySettled s = monthlySettled st"
  shows "attemptFailure env now s userId = attemptFailure env now st userId"
    and "attemptEvents env now s userId = attemptEvents env now st userId"
proof -
  note b = blocks_cong [OF sh ms, of env now userId]
  show "attemptFailure env now s userId = attemptFailure env now st userId"
    unfolding attemptFailure_def sendOrUpdateControlMessage_def Let_def r b sh
    by (simp add: postNew_def updateInPlace_def split: sum.splits option.splits)
  show "attemptEvents env now s userId = attemptEvents env now st userId"
    unfolding attemptEvents_def sendOrUpdateControlMessage_def Let_def r b sh
    by (simp add: postNew_def updateInPlace_def split: sum.splits option.splits)
qed

lemma broadcastLoop_count:
  "\<exists>evs logs. chat (broadcastLoop env now us st) = chat st @ evs
      \<and> console (broadcastLoop env now us st) = console st @ logs
      \<and> length evs + length logs = length us
      \<and> set (map failedUser logs) \<subseteq> set (map (\<lambda>u. Some (idOf u)) us)"
proof (induction us arbitrary: st)
  case Nil
  then show ?case by simp
next
  case (Cons u us)
  show ?case
  proof (cases "sendOrUpdateControlMessage env now (idOf u) st")
    case (Inl e)
    let ?s = "st\<lparr>console := console st @ [FailedDM (idOf u) e]\<rparr>"
    from Cons.IH [of ?s] obtain evs logs where
      h: "chat (broadcastLoop env now us ?s) = chat ?s @ evs"
         "console (broadcastLoop env now us ?s) = console ?s @ logs"
         "length evs + length logs = length us"
         "set (map failedUser logs) \<subseteq> set (map (\<lambda>u. Some (idOf u)) us)"
      by blast
    have l: "broadcastLoop env now (u # us) st = broadcastLoop env now us ?s"
      using Inl by simp
    have 1: "chat (broadcastLoop env now (u # us) st) = chat st @ evs"
      unfolding l h(1) by simp
    have 2: "console (broadcastLoop env now (u # us) st) = console st @ (FailedDM (idOf u) e # logs)"
      unfolding l h(2) by simp
    have 3: "length evs + length (FailedDM (idOf u) e # logs) = length (u # us)"
      using h(3) by simp
    have 4: "set (map failedUser (FailedDM (idOf u) e # logs))
        \<subseteq> set (map (\<lambda>u. Some (idOf u)) (u # us))"
      using h(4) by (simp add: subset_insertI2)
    from 1 2 3 4 show ?thesis by blast
  next
    case (Inr s)
    from Cons.IH [of s] obtain evs logs where
      h: "chat (broadcastLoop env now us s) = chat s @ evs"
         "console (broadcastLoop env now us s) = console s @ logs"
         "length evs + length logs = length us"
         "set (map failedUser logs) \<subseteq> set (map (\<lambda>u. Some (idOf u)) us)"
      by blast
    note f = sendOrUpdate_Inr_frame [OF Inr]
    have l: "broadcastLoop env now (u # us) st = broadcastLoop env now us s"
      using Inr by simp
    have 1: "chat (broadcastLoop env now (u # us) st)
        = chat st @ (attemptEvents env now st (idOf u) @ evs)"
      unfolding l h(1) f(2) by simp
    have 2: "console (broadcastLoop env now (u # us) st) = console st @ logs"
      unfolding l h(2) f(4) by simp
    have 3: "length (attemptEvents env now st (idOf u) @ evs) + length logs = length (u # us)"
      using h(3) f(3) by simp
    have 4: "set (map failedUser logs) \<subseteq> set (map (\<lambda>u. Some (idOf u)) (u # us))"
      using h(4) by (simp add: subset_insertI2)
    from 1 2 3 4 show ?thesis by blast
  qed
qed

lemma broadcastLoop_isolated:
  "distinct (map idOf us) \<Longrightarrow> sheet s = sheet st \<Longrightarrow> monthlySettled s = monthlySettled st \<Longrightarrow>
   list_all (\<lambda>u. userMessageRefs s (idOf u) = userMessageRefs st (idOf u)) us \<Longrightarrow>
   console (broadcastLoop env now us s)
       = console s @ concat (map (\<lambda>u. attemptFailure env now st (idOf u)) us)
   \<and> chat (broadcastLoop env now us s)
       = chat s @ concat (map (\<lambda>u. attemptEvents env now st (idOf u)) us)"
proof (induction us arbitrary: s)
  case Nil
  then show ?case by simp
next
  case (Cons u us)
  have d: "distinct (map idOf us)" and nu: "idOf u \<notin> set (map idOf us)"
    using Cons.prems(1) by simp_all
  have ru: "userMessageRefs s (idOf u) = userMessageRefs st (idOf u)"
    and rs: "list_all (\<lambda>u. userMessageRefs s (idOf u) = userMessageRefs st (idOf u)) us"
    using Cons.prems(4) by simp_all
  note c = attempt_cong [OF ru Cons.prems(2) Cons.prems(3), of env now]
  show ?case
  proof (cases "sendOrUpdateControlMessage env now (idOf u) s")
    case (Inl e)
    let ?s = "s\<lparr>console := console s @ [FailedDM (idOf u) e]\<rparr>"
    have l: "broadcastLoop env now (u # us) s = broadcastLoop env now us ?s"
      using Inl by simp
    have ih: "console (broadcastLoop env now us ?s)
           = console ?s @ concat (map (\<lambda>u. attemptFailure env now st (idOf u)) us)
       \<and> chat (broadcastLoop env now us ?s)
           = chat ?s @ concat (map (\<lambda>u. attemptEvents env now st (idOf u)) us)"
    proof (rule Cons.IH [OF d])
      show "sheet ?s = sheet st" using Cons.prems(2) by simp
      show "monthlySettled ?s = monthlySettled st" using Cons.prems(3) by simp
      show "list_all (\<lambda>u. userMessageRefs ?s (idOf u) = userMessageRefs st (idOf u)) us"
        using rs by simp
    qed
    note f = sendOrUpdate_Inl_frame [OF Inl]
    have a: "attemptFailure env now st (idOf u) = [FailedDM (idOf u) e]"
      "attemptEvents env now st (idOf u) = []"
      using c f by simp_all
    show ?thesis
      unfolding l using ih a by simp
  next
    case (Inr s')
    note f = sendOrUpdate_Inr_frame [OF Inr]
    have l: "broadcastLoop env now (u # us) s = broadcastLoop env now us s'"
      using Inr by simp
    have rs': "list_all (\<lambda>v. userMessageRefs s' (idOf v) = userMessageRefs st (idOf v)) us"
      unfolding list_all_iff
    proof
      fix v assume v: "v \<in> set us"
      then have "idOf v \<in> set (map idOf us)" by simp
      with nu have "idOf v \<noteq> idOf u" by metis
      then have "userMessageRefs s' (idOf v) = userMessageRefs s (idOf v)" by (rule f(7))
      moreover have "userMessageRefs s (idOf v) = userMessageRefs st (idOf v)"
        using rs v by (simp add: list_all_iff)
      ultimately show "userMessageRefs s' (idOf v) = userMessageRefs st (idOf v)" by simp
    qed
    have ih: "console (broadcastLoop env now us s')
           = console s' @ concat (map (\<lambda>u. attemptFailure env now st (idOf u)) us)
       \<and> chat (broadcastLoop env now us s')
           = chat s' @ concat (map (\<lambda>u. attemptEvents env now st (idOf u)) us)"
    proof (rule Cons.IH [OF d _ _ rs'])
      show "sheet s' = sheet st" using Cons.prems(2) f(5) by simp
      show "monthlySettled s' = monthlySettled st" using Cons.prems(3) f(6) by simp
    qed
    have a: "attemptFailure env now st (idOf u) = []"
      "chat s' = chat s @ attemptEvents env now st (idOf u)"
      using c f(1) f(2) by simp_all
    show ?thesis
      unfolding l using ih a f(4) by simp
  qed
qed

lemma eligible_not_bot: "list_all (\<lambda>m. \<not> is_bot m \<and> \<not> deleted m) (filter eligible members)"
  by (simp add: list_all_iff eligible_def)

text \<open>
  C8. For every directory, the broadcast runs the control-message operation for the
  members that pass the filter, all of them non-bot and non-deleted. Each of them leaves
  exactly one trace, a message in the chat or a logged failure naming that member, so a
  failure for one never stops the batch; and when their identifiers are distinct, each is
  treated as it would be alone from the starting state: the console gains the failures of
  exactly those whose operation fails, the chat the messages of all the others.
\<close>

theorem broadcast_tolerates_failures:
  assumes "usersList env = Inr members"
  shows "list_all (\<lambda>m. \<not> is_bot m \<and> \<not> deleted m) (filter eligible members)
    \<and> (\<exists>evs logs. chat (broadcastForCurrentMonth env now st) = chat st @ evs
          \<and> console (broadcastForCurrentMonth env now st) = console st @ logs
          \<and> length evs + length logs = length (filter eligible members)
          \<and> set (map failedUser logs) \<subseteq> set (map (\<lambda>u. Some (idOf u)) (filter eligible members)))
    \<and> (distinct (map idOf (filter eligible members)) \<longrightarrow>
         console (broadcastForCurrentMonth env now st)
           = console st @ concat (map (\<lambda>u. attemptFailure env now st (idOf u)) (filter eligible members))
         \<and> chat (broadcastForCurrentMonth env now st)
           = chat st @ concat (map (\<lambda>u. attemptEvents env now st (idOf u)) (filter eligible members)))"
proof -
  have b: "broadcastForCurrentMonth env now st = broadcastLoop env now (filter eligible members) st"
    using assms by (simp add: broadcastForCurrentMonth_def)
  have i: "distinct (map idOf (filter eligible members)) \<longrightarrow>
         console (broadcastLoop env now (filter eligible members) st)
           = console st @ concat (map (\<lambda>u. attemptFailure env now st (idOf u)) (filter eligible members))
         \<and> chat (broadcastLoop env now (filter eligible members) st)
           = chat st @ concat (map (\<lambda>u. attemptEvents env now st (idOf u)) (filter eligible members))"
  proof
    assume "distinct (map idOf (filter eligible members))"
    then show "console (broadcastLoop env now (filter eligible members) st)
           = console st @ concat (map (\<lambda>u. attemptFailure env now st (idOf u)) (filter eligible members))
         \<and> chat (broadcastLoop env now (filter eligible members) st)
           = chat st @ concat (map (\<lambda>u. attemptEvents env now st (idOf u)) (filter eligible members))"
      by (rule broadcastLoop_isolated) (simp_all add: list_all_iff)
  qed
  show ?thesis
    unfolding b
    by (rule conjI [OF eligible_not_bot conjI [OF broadcastLoop_count i]])
qed

lemma demo_send:
  assumes "userMessageRefs st u = None" "sheet st = []" "monthlySettled st = Map.empty"
  shows "sendOrUpdateControlMessage demoEnv may2024 u st =
    (if CHR ''D'' # u = ''DU2'' then Inl (ApiError ''channel_not_found'')
     else Inr (st\<lparr>chat := chat st @ [PostMessage (CHR ''D'' # u)
            \<lparr>tallyCoffee = 0, tallyTea = 0, amountDue = ''0.00'', settledChecked = False\<rparr>],
          userMessageRefs := (userMessageRefs st)(u \<mapsto>
            \<lparr>channelId = CHR ''D'' # u, ts = Some ''1715767200.000100'', monthKey = ''2024-05''\<rparr>)\<rparr>))"
proof -
  have c: "conversationsOpen demoEnv u = Inr (CHR ''D'' # u)"
    and p: "\<And>c b. chatPostMessage demoEnv c b =
      (if c = ''DU2'' then Inl (ApiError ''channel_not_found'') else Inr (Some ''1715767200.000100''))"
    and v: "\<And>r rows. valuesGet demoEnv r rows = None"
    by (simp_all add: demoEnv_def)
  show ?thesis
    using assms
    by (simp add: sendOrUpdateControlMessage_def Let_def blocks_initial monthKey_may2024
        channelFor_def openDmChannel_def postNew_def c p v)
qed

theorem broadcast_tolerates_failures_example:
  "usersList demoEnv = Inr directory
   \<and> map idOf (filter eligible directory) = [''U1'', ''U2'', ''U3'']
   \<and> chat (broadcastForCurrentMonth demoEnv may2024 initial) =
       [PostMessage ''DU1'' \<lparr>tallyCoffee = 0, tallyTea = 0, amountDue = ''0.00'', settledChecked = False\<rparr>,
        PostMessage ''DU3'' \<lparr>tallyCoffee = 0, tallyTea = 0, amountDue = ''0.00'', settledChecked = False\<rparr>]
   \<and> console (broadcastForCurrentMonth demoEnv may2024 initial) =
       [FailedDM ''U2'' (ApiError ''channel_not_found'')]"
proof -
  have u: "usersList demoEnv = Inr directory" by (simp add: demoEnv_def)
  have e: "filter eligible directory =
     [\<lparr>is_bot = False, deleted = False, member_id = Some ''U1''\<rparr>,
      \<lparr>is_bot = False, deleted = False, member_id = Some ''U2''\<rparr>,
      \<lparr>is_bot = False, deleted = False, member_id = Some ''U3''\<rparr>]"
    by (simp add: directory_def eligible_def)
  have i: "map idOf (filter eligible directory) = [''U1'', ''U2'', ''U3'']"
    by (simp add: e idOf_def propertyKey_def)
  have f: "userMessageRefs initial = Map.empty" "sheet initial = []"
    "monthlySettled initial = Map.empty" "chat initial = []" "console initial = []"
    by (simp_all add: initial_def)
  have a1: "attemptFailure demoEnv may2024 initial ''U1'' = []"
    "attemptFailure demoEnv may2024 initial ''U2'' = [FailedDM ''U2'' (ApiError ''channel_not_found'')]"
    "attemptFailure demoEnv may2024 initial ''U3'' = []"
    by (simp_all add: attemptFailure_def demo_send f)
  have a2: "attemptEvents demoEnv may2024 initial ''U1'' =
      [PostMessage ''DU1'' \<lparr>tallyCoffee = 0, tallyTea = 0, amountDue = ''0.00'', settledChecked = False\<rparr>]"
    "attemptEvents demoEnv may2024 initial ''U2'' = []"
    "attemptEvents demoEnv may2024 initial ''U3'' =
      [PostMessage ''DU3'' \<lparr>tallyCoffee = 0, tallyTea = 0, amountDue = ''0.00'', settledChecked = False\<rparr>]"
    by (simp_all add: attemptEvents_def demo_send f)
  have d: "distinct (map idOf (filter eligible directory))" by (simp add: i)
  from broadcast_tolerates_failures [OF u, of may2024 initial] d
  have "console (broadcastForCurrentMonth demoEnv may2024 initial)
           = console initial @ concat (map (\<lambda>u. attemptFailure demoEnv may2024 initial (idOf u)) (filter eligible directory))
         \<and> chat (broadcastForCurrentMonth demoEnv may2024 initial)
           = chat initial @ concat (map (\<lambda>u. attemptEvents demoEnv may2024 initial (idOf u)) (filter eligible directory))"
    by blast
  then show ?thesis
    using u i by (simp add: e idOf_def propertyKey_def a1 a2 f)
qed

end
